theory Spec2Isabelle
  imports Main "HOL-Library.Monad_Syntax"
begin

section \<open>Object flags\<close>

text \<open>
  \<^verbatim>\<open>ObjectFlags\<close> is a bit mask with the three independent bits \<^verbatim>\<open>ToBegin\<close>,
  \<^verbatim>\<open>ToEnd\<close> and \<^verbatim>\<open>Inner\<close>.  The selectors only test single bits
  (\<^verbatim>\<open>flags & ObjectFlags::ToBegin\<close>) or compare the whole mask
  (\<^verbatim>\<open>flags == ObjectFlags::ToBegin\<close>), so the mask is a record of three booleans:
  testing a bit is a field access and comparing masks is equality of records.
\<close>

record ObjectFlags =
  to_begin :: bool
  to_end :: bool
  inner :: bool

definition ToBegin :: ObjectFlags where
  "ToBegin = \<lparr>to_begin = True, to_end = False, inner = False\<rparr>"

definition ToEnd :: ObjectFlags where
  "ToEnd = \<lparr>to_begin = False, to_end = True, inner = False\<rparr>"

definition Inner :: ObjectFlags where
  "Inner = \<lparr>to_begin = False, to_end = False, inner = True\<rparr>"

definition flags_or :: "ObjectFlags \<Rightarrow> ObjectFlags \<Rightarrow> ObjectFlags" where
  "flags_or f g =
     \<lparr>to_begin = (to_begin f \<or> to_begin g), to_end = (to_end f \<or> to_end g),
      inner = (inner f \<or> inner g)\<rparr>"

section \<open>Searching for a closing delimiter\<close>

text \<open>
  Iterators into a container are offsets from its beginning.  \<open>search xs first lim pat\<close>
  is \<^verbatim>\<open>std::search(first, lim, pat.begin(), pat.end())\<close>: the offset of the first
  occurrence of \<open>pat\<close> that lies inside \<open>[first, lim)\<close>, and \<open>lim\<close> when there is none.
  An empty pattern is found at \<open>first\<close>.
\<close>

function search :: "'a list \<Rightarrow> nat \<Rightarrow> nat \<Rightarrow> 'a list \<Rightarrow> nat" where
  "search xs first lim pat =
     (if first + length pat \<le> lim
      then (if take (length pat) (drop first xs) = pat then first
            else search xs (Suc first) lim pat)
      else lim)"
  by pat_completeness auto
termination
proof (relation "measure (\<lambda>(xs, first, lim, pat). lim - first)", goal_cases)
  case 1
  show ?case by simp
next
  case (2 xs first lim pat)
  from 2(2) have "pat \<noteq> []" by auto
  with 2(1) have "first < lim" by (cases pat) auto
  then show ?case by auto
qed

declare search.simps [simp del]

text \<open>
  The two loops of \<^verbatim>\<open>find_closing\<close>.  Neither is bounded by the source: the inner
  \<^verbatim>\<open>for\<close> loop advances by \<^verbatim>\<open>opening_len\<close>, which is zero for an empty opening
  string, and the outer \<^verbatim>\<open>while\<close> loop advances by \<^verbatim>\<open>closing_len\<close>.  They are
  therefore partial functions: the value \<open>None\<close> stands for a call that does not
  return, \<open>Some r\<close> for a call returning \<open>r\<close>.  The nesting level is the source's
  \<^verbatim>\<open>int\<close>, taken unbounded (it only overflows past \<open>2^31\<close> nested delimiters).

  \<open>count_opening\<close> is the inner loop
  \<^verbatim>\<open>for (auto open = pos; open != close; open += opening_len)\<close>, which bumps the
  level once for every opening found before the closing.
\<close>

partial_function (option) count_opening ::
  "'a list \<Rightarrow> nat \<Rightarrow> nat \<Rightarrow> 'a list \<Rightarrow> int \<Rightarrow> int option" where
  "count_opening xs opn close opening level =
     (if opn = close then Some level
      else let opn' = search xs opn close opening in
           if opn' = close then Some level
           else count_opening xs (opn' + length opening) close opening (level + 1))"

text \<open>
  \<open>find_closing_loop\<close> is the \<^verbatim>\<open>while (pos != end)\<close> loop.  Its result \<open>Some None\<close> is
  the absent \<^verbatim>\<open>Optional\<close>, and \<open>Some (Some p)\<close> the iterator \<^verbatim>\<open>pos-1\<close>, an integer
  because \<^verbatim>\<open>pos-1\<close> precedes the beginning when an empty closing is found at offset 0.
\<close>

partial_function (option) find_closing_loop ::
  "'a list \<Rightarrow> nat \<Rightarrow> nat \<Rightarrow> 'a list \<Rightarrow> 'a list \<Rightarrow> int \<Rightarrow> bool \<Rightarrow> int option option" where
  "find_closing_loop xs pos endp opening closing level nestable =
     (if pos = endp then Some None
      else let close = search xs pos endp closing in
        if close = endp then Some None
        else do {
          level' \<leftarrow> (if nestable then count_opening xs pos close opening level
                     else Some level);
          let pos' = close + length closing in
          if level' = 0 then Some (Some (int pos' - 1))
          else find_closing_loop xs pos' endp opening closing (level' - 1) nestable
        })"

declare count_opening.simps [code]
declare find_closing_loop.simps [code]

definition find_closing ::
  "'a list \<Rightarrow> nat \<Rightarrow> nat \<Rightarrow> 'a list \<Rightarrow> 'a list \<Rightarrow> int \<Rightarrow> bool \<Rightarrow> int option option" where
  "find_closing xs pos endp opening closing init_level nestable =
     (let level = (if nestable then init_level else 0);
          pos' = (if length opening + pos \<le> endp
                     \<and> take (length opening) (drop pos xs) = opening
                  then pos + length opening else pos)
      in find_closing_loop xs pos' endp opening closing level nestable)"

section \<open>The surrounding pair\<close>

text \<open>
  \<open>find_surrounding container pos opening closing flags init_level\<close>.  The backward
  search runs \<open>find_closing\<close> over reverse iterators: \<^verbatim>\<open>RevIt{pos+1}\<close> is offset
  \<open>n - 1 - pos\<close> of the reversed container, \<^verbatim>\<open>RevIt{begin(container)}\<close> is its end,
  and \<^verbatim>\<open>res->base() - 1\<close> of the reverse offset \<open>j\<close> is the offset \<open>n - 1 - j\<close>.

  The comparison \<^verbatim>\<open>opening != *pos\<close> compares the string \<open>opening\<close> with the one-byte
  string made of the byte under \<open>pos\<close>; it reads \<^verbatim>\<open>*pos\<close> only when \<^verbatim>\<open>ToBegin\<close> is set
  (the \<^verbatim>\<open>and\<close> short-circuits).  Reading it at or past the end of the container is
  undefined in the source, as is an iterator past the end; the model gives \<open>None\<close>
  (no result) there.
\<close>

definition find_surrounding ::
  "'a list \<Rightarrow> nat \<Rightarrow> 'a list \<Rightarrow> 'a list \<Rightarrow> ObjectFlags \<Rightarrow> int
     \<Rightarrow> (int \<times> int) option option" where
  "find_surrounding container pos opening closing flags init_level =
     (let nestable = (opening \<noteq> closing);
          n = length container
      in if n < pos \<or> (to_begin flags \<and> n \<le> pos) then None
      else do {
        first \<leftarrow> (if to_begin flags \<and> opening \<noteq> [container ! pos]
                  then map_option (map_option (\<lambda>j. int n - 1 - j))
                         (find_closing (rev container) (n - 1 - pos) n
                            (rev closing) (rev opening) init_level nestable)
                  else Some (Some (int pos)));
        case first of None \<Rightarrow> Some None
        | Some first \<Rightarrow> do {
            lastp \<leftarrow> (if to_end flags
                     then find_closing container pos n opening closing init_level nestable
                     else Some (Some (int pos)));
            case lastp of None \<Rightarrow> Some None
            | Some lastp \<Rightarrow>
                (let first' = (if inner flags \<and> to_begin flags \<and> first \<noteq> lastp
                               then first + int (length opening) else first);
                     lastp' = (if inner flags \<and> to_end flags \<and> first' \<noteq> lastp
                              then lastp - int (length closing) else lastp)
                 in Some (Some (if to_end flags then (first', lastp')
                                else (lastp', first'))))
          }
      })"

text \<open>
  The unit test reads a result as the text from the smaller to the larger iterator,
  both included: \<^verbatim>\<open>StringView{min, max+1}\<close>.
\<close>

definition span_text :: "'a list \<Rightarrow> int \<times> int \<Rightarrow> 'a list" where
  "span_text s r =
     (let lo = min (fst r) (snd r); hi = max (fst r) (snd r)
      in take (nat (hi + 1 - lo)) (drop (nat lo) s))"

definition found_text :: "'a list \<Rightarrow> (int \<times> int) option option \<Rightarrow> 'a list option option" where
  "found_text s res = map_option (map_option (span_text s)) res"

section \<open>Buffer, coordinates and selections\<close>

text \<open>
  Modelled from the spec: the buffer storage layer (\<^verbatim>\<open>Buffer\<close>, \<^verbatim>\<open>BufferCoord\<close>,
  \<^verbatim>\<open>BufferIterator\<close>) and \<^verbatim>\<open>Selection\<close> are declared in headers that are not part
  of the sources.  A buffer is an indexed sequence of lines, each holding its trailing
  newline byte; a coordinate is a pair of a line index and a byte offset into that line,
  ordered lexicographically; a byte iterator is the offset of a byte in the
  concatenation of the lines, the end iterator being the total size.
\<close>

type_synonym Buffer = "string list"

record BufferCoord =
  line :: int
  column :: int

definition coord_less :: "BufferCoord \<Rightarrow> BufferCoord \<Rightarrow> bool" where
  "coord_less a b = (line a < line b \<or> (line a = line b \<and> column a < column b))"

definition coord_le :: "BufferCoord \<Rightarrow> BufferCoord \<Rightarrow> bool" where
  "coord_le a b = (line a < line b \<or> (line a = line b \<and> column a \<le> column b))"

definition bytes :: "Buffer \<Rightarrow> string" where
  "bytes b = concat b"

definition valid_coord :: "Buffer \<Rightarrow> BufferCoord \<Rightarrow> bool" where
  "valid_coord b c =
     (0 \<le> line c \<and> line c < int (length b) \<and>
      0 \<le> column c \<and> column c < int (length (b ! nat (line c))))"

definition end_coord :: "Buffer \<Rightarrow> BufferCoord" where
  "end_coord b = \<lparr>line = int (length b), column = 0\<rparr>"

text \<open>
  \<^verbatim>\<open>buffer.iterator_at(coord)\<close>: the iterator of a valid coordinate, the end iterator for
  the end coordinate, and nothing defined for any other coordinate (\<open>None\<close>).
\<close>

definition iterator_at :: "Buffer \<Rightarrow> BufferCoord \<Rightarrow> nat option" where
  "iterator_at b c =
     (if valid_coord b c
      then Some (length (concat (take (nat (line c)) b)) + nat (column c))
      else if c = end_coord b then Some (length (bytes b))
      else None)"

text \<open>
  \<^verbatim>\<open>it.coord()\<close>: the coordinate of the byte an iterator stands on, found by walking the
  lines; the end iterator stands on the first column after the last line.  An iterator
  moved before the beginning or past the end has no coordinate (\<open>None\<close>).
\<close>

fun coord_from :: "string list \<Rightarrow> nat \<Rightarrow> nat \<Rightarrow> BufferCoord" where
  "coord_from [] l off = \<lparr>line = int l, column = int off\<rparr>"
| "coord_from (x # xs) l off =
     (if off < length x then \<lparr>line = int l, column = int off\<rparr>
      else coord_from xs (Suc l) (off - length x))"

definition coord :: "Buffer \<Rightarrow> int \<Rightarrow> BufferCoord option" where
  "coord b i =
     (if 0 \<le> i \<and> i \<le> int (length (bytes b)) then Some (coord_from b 0 (nat i)) else None)"

text \<open>
  A selection: anchor and cursor (both included), the target column carried by the
  cursor (\<^verbatim>\<open>INT_MAX\<close> meaning the end of the line, \<open>None\<close> when the cursor carries none)
  and the captures of the regex match that produced it.  \<open>make_selection\<close> is the
  two-coordinate constructor \<^verbatim>\<open>Selection{anchor, cursor}\<close>, which builds a selection
  with no captures.
\<close>

record Selection =
  anchor :: BufferCoord
  cursor :: BufferCoord
  target :: "int option"
  captures :: "string list"

definition make_selection :: "BufferCoord \<Rightarrow> BufferCoord \<Rightarrow> Selection" where
  "make_selection a c = \<lparr>anchor = a, cursor = c, target = None, captures = []\<rparr>"

definition sel_min :: "Selection \<Rightarrow> BufferCoord" where
  "sel_min s = (if coord_le (anchor s) (cursor s) then anchor s else cursor s)"

definition sel_max :: "Selection \<Rightarrow> BufferCoord" where
  "sel_max s = (if coord_le (anchor s) (cursor s) then cursor s else anchor s)"

definition INT_MAX :: int where
  "INT_MAX = 2147483647"

definition target_eol :: "Selection \<Rightarrow> Selection" where
  "target_eol sel = sel\<lparr>target := Some INT_MAX\<rparr>"

definition utf8_range :: "Buffer \<Rightarrow> int \<times> int \<Rightarrow> Selection option" where
  "utf8_range b r =
     (case coord b (fst r) of None \<Rightarrow> None
      | Some a \<Rightarrow> (case coord b (snd r) of None \<Rightarrow> None
                  | Some c \<Rightarrow> Some (make_selection a c)))"

definition byte_at :: "Buffer \<Rightarrow> BufferCoord \<Rightarrow> char option" where
  "byte_at b c = (if valid_coord b c then Some (b ! nat (line c) ! nat (column c)) else None)"

section \<open>Selecting the surrounding pair\<close>

text \<open>
  The selectors return \<^verbatim>\<open>Optional<Selection>\<close>.  In the model a selector returns
  \<open>Some None\<close> for the absent result and \<open>Some (Some sel)\<close> for a selection; \<open>None\<close> is
  kept for a call with no defined result (a loop that does not end, an iterator used
  outside the buffer).

  \<open>select_surrounding_with finder\<close> is the body of \<^verbatim>\<open>select_surrounding\<close>, the search it
  calls being the parameter \<open>finder\<close>: the body is written once, and what it asks of the
  search (which flags, which level) can be stated whatever the search does with it.
  \<open>select_surrounding\<close> is this body calling \<open>find_surrounding\<close>.

  \<open>surrounding_range_with finder\<close> is the step the body takes three times: call
  \<^verbatim>\<open>find_surrounding(buffer, buffer.iterator_at(pos), opening, closing, flags, level)\<close>
  and turn a found pair of iterators into a selection with \<^verbatim>\<open>utf8_range\<close>.
\<close>

type_synonym Finder =
  "string \<Rightarrow> nat \<Rightarrow> string \<Rightarrow> string \<Rightarrow> ObjectFlags \<Rightarrow> int \<Rightarrow> (int \<times> int) option option"

definition surrounding_range_with ::
  "Finder \<Rightarrow> Buffer \<Rightarrow> BufferCoord \<Rightarrow> string \<Rightarrow> string \<Rightarrow> ObjectFlags \<Rightarrow> int
     \<Rightarrow> Selection option option" where
  "surrounding_range_with finder buffer pos opening closing flags level =
     (case iterator_at buffer pos of None \<Rightarrow> None
      | Some it \<Rightarrow>
          (case finder (bytes buffer) it opening closing flags level of
             None \<Rightarrow> None
           | Some None \<Rightarrow> Some None
           | Some (Some res) \<Rightarrow> map_option Some (utf8_range buffer res)))"

definition select_surrounding_with ::
  "Finder \<Rightarrow> Buffer \<Rightarrow> Selection \<Rightarrow> string \<Rightarrow> string \<Rightarrow> int \<Rightarrow> ObjectFlags
     \<Rightarrow> Selection option option" where
  "select_surrounding_with finder buffer selection opening closing level flags =
     (let nestable = (opening \<noteq> closing);
          pos = cursor selection
      in if \<not> nestable \<or> inner flags
         then surrounding_range_with finder buffer pos opening closing flags level
         else
           (case byte_at buffer pos of None \<Rightarrow> None
            | Some c \<Rightarrow>
               (let level' = (if (flags = ToBegin \<and> [c] = opening) \<or>
                                  (flags = ToEnd \<and> [c] = closing)
                               then level + 1 else level)
                in case surrounding_range_with finder buffer pos opening closing flags level' of
                     None \<Rightarrow> None
                   | Some None \<Rightarrow> Some None
                   | Some (Some sel) \<Rightarrow>
                       if flags \<noteq> flags_or ToBegin ToEnd \<or>
                          sel_min sel \<noteq> sel_min selection \<or>
                          sel_max sel \<noteq> sel_max selection
                       then Some (Some sel)
                       else surrounding_range_with finder buffer pos opening closing flags
                              (level' + 1))))"

definition surrounding_range ::
  "Buffer \<Rightarrow> BufferCoord \<Rightarrow> string \<Rightarrow> string \<Rightarrow> ObjectFlags \<Rightarrow> int
     \<Rightarrow> Selection option option" where
  "surrounding_range = surrounding_range_with find_surrounding"

definition select_surrounding ::
  "Buffer \<Rightarrow> Selection \<Rightarrow> string \<Rightarrow> string \<Rightarrow> int \<Rightarrow> ObjectFlags
     \<Rightarrow> Selection option option" where
  "select_surrounding = select_surrounding_with find_surrounding"


section \<open>Whole lines\<close>

text \<open>
  \<^verbatim>\<open>buffer[line].length()\<close>, the length of a line with its newline; nothing defined for
  a line the buffer does not have.
\<close>

definition line_length :: "Buffer \<Rightarrow> int \<Rightarrow> int option" where
  "line_length b l =
     (if 0 \<le> l \<and> l < int (length b) then Some (int (length (b ! nat l))) else None)"

text \<open>
  \<^verbatim>\<open>select_lines\<close> copies anchor and cursor as plain coordinates, moves the smaller one to
  column 0 and the larger one to the last column of its line, and returns
  \<^verbatim>\<open>target_eol({anchor, cursor})\<close>: a new selection built from the two coordinates.
\<close>

definition select_lines :: "Buffer \<Rightarrow> Selection \<Rightarrow> Selection option option" where
  "select_lines buffer selection =
     (let a = anchor selection; c = cursor selection
      in if coord_le a c
         then (case line_length buffer (line c) of None \<Rightarrow> None
               | Some len \<Rightarrow>
                   Some (Some (target_eol
                     (make_selection (a\<lparr>column := 0\<rparr>) (c\<lparr>column := len - 1\<rparr>)))))
         else (case line_length buffer (line a) of None \<Rightarrow> None
               | Some len \<Rightarrow>
                   Some (Some (target_eol
                     (make_selection (a\<lparr>column := len - 1\<rparr>) (c\<lparr>column := 0\<rparr>))))))"

text \<open>
  \<^verbatim>\<open>trim_partial_lines\<close>.  \<open>trim_finish\<close> is its tail, from the test
  \<^verbatim>\<open>to_line_start > to_line_end\<close> on: \<open>fwd\<close> tells which of anchor and cursor the two
  references \<^verbatim>\<open>to_line_start\<close> and \<^verbatim>\<open>to_line_end\<close> stand for.
\<close>

definition trim_finish :: "bool \<Rightarrow> BufferCoord \<Rightarrow> BufferCoord \<Rightarrow> Selection option option" where
  "trim_finish fwd to_line_start to_line_end =
     (if coord_less to_line_end to_line_start then Some None
      else Some (Some (target_eol
             (if fwd then make_selection to_line_start to_line_end
              else make_selection to_line_end to_line_start))))"

definition trim_partial_lines :: "Buffer \<Rightarrow> Selection \<Rightarrow> Selection option option" where
  "trim_partial_lines buffer selection =
     (let a = anchor selection; c = cursor selection;
          fwd = coord_le a c;
          to_line_start = (if fwd then a else c);
          to_line_end = (if fwd then c else a);
          to_line_start' = (if column to_line_start \<noteq> 0
                            then \<lparr>line = line to_line_start + 1, column = 0\<rparr>
                            else to_line_start)
      in case line_length buffer (line to_line_end) of None \<Rightarrow> None
         | Some len \<Rightarrow>
             if column to_line_end \<noteq> len - 1
             then if line to_line_end = 0 then Some None
                  else (case line_length buffer (line to_line_end - 1) of None \<Rightarrow> None
                        | Some prev_len \<Rightarrow>
                            trim_finish fwd to_line_start'
                              \<lparr>line = line to_line_end - 1, column = prev_len - 1\<rparr>)
             else trim_finish fwd to_line_start' to_line_end)"

section \<open>Byte classes and skipping\<close>

text \<open>
  Modelled from the spec: the character classifiers and the traversal primitives
  \<^verbatim>\<open>skip_while\<close> and \<^verbatim>\<open>skip_while_reverse\<close> are defined in headers that are not part of
  the sources.  \<open>is_eol\<close> holds of the newline, \<open>is_horizontal_blank\<close> of space and tab,
  \<open>is_blank\<close> of both kinds.
\<close>

definition is_eol :: "char \<Rightarrow> bool" where
  "is_eol c = (c = CHR 0x0A)"

definition is_horizontal_blank :: "char \<Rightarrow> bool" where
  "is_horizontal_blank c = (c = CHR '' '' \<or> c = CHR 0x09)"

definition is_blank :: "char \<Rightarrow> bool" where
  "is_blank c = (is_horizontal_blank c \<or> is_eol c)"

text \<open>
  \<^verbatim>\<open>skip_while(it, end, pred)\<close> advances \<open>it\<close> while \<^verbatim>\<open>it != end\<close> and the predicate holds
  of the byte under it; \<^verbatim>\<open>skip_while_reverse(it, begin, pred)\<close> moves it back while
  \<^verbatim>\<open>it != begin\<close> and the predicate holds.  Both return the iterator reached (the
  selectors modelled here ignore the boolean they also return).  A byte iterator is an
  offset into \<open>bytes buffer\<close>; reading at or past the end and stepping back before the
  beginning are not defined by the sources and give \<open>None\<close>.
\<close>

function skip_while :: "string \<Rightarrow> nat \<Rightarrow> nat \<Rightarrow> (char \<Rightarrow> bool) \<Rightarrow> nat option" where
  "skip_while bs it endp p =
     (if it = endp then Some it
      else if length bs \<le> it then None
      else if p (bs ! it) then skip_while bs (Suc it) endp p
      else Some it)"
  by pat_completeness auto
termination
  by (relation "measure (\<lambda>(bs, it, endp, p). length bs - it)") auto

declare skip_while.simps [simp del]

function skip_while_reverse :: "string \<Rightarrow> nat \<Rightarrow> nat \<Rightarrow> (char \<Rightarrow> bool) \<Rightarrow> nat option" where
  "skip_while_reverse bs it beginp p =
     (if it = beginp then Some it
      else if length bs \<le> it then None
      else if p (bs ! it)
           then (if it = 0 then None else skip_while_reverse bs (it - 1) beginp p)
      else Some it)"
  by pat_completeness auto
termination
  by (relation "measure (\<lambda>(bs, it, beginp, p). it)") auto

declare skip_while_reverse.simps [simp del]

section \<open>The sentence object\<close>

definition is_end_of_sentence :: "char \<Rightarrow> bool" where
  "is_end_of_sentence c = (c = CHR ''.'' \<or> c = CHR '';'' \<or> c = CHR ''!'' \<or> c = CHR ''?'')"

text \<open>
  The backward loop of \<^verbatim>\<open>select_sentence\<close>, \<^verbatim>\<open>while (first != buffer.begin())\<close>.  It
  returns the iterators \<open>first\<close> and \<open>last\<close> it leaves; \<open>te\<close> is the \<^verbatim>\<open>ToEnd\<close> bit, under
  which the loop also moves \<open>last\<close>.
\<close>

function sentence_begin_loop ::
  "string \<Rightarrow> bool \<Rightarrow> nat \<Rightarrow> nat \<Rightarrow> bool \<Rightarrow> (nat \<times> nat) option" where
  "sentence_begin_loop bs te first lastp saw_non_blank =
     (if first = 0 then Some (first, lastp)
      else if length bs \<le> first then None
      else let cur = bs ! first;
               prev = bs ! (first - 1);
               saw = (saw_non_blank \<or> \<not> is_horizontal_blank cur)
           in if is_eol prev \<and> is_eol cur then Some (first + 1, lastp)
              else if is_end_of_sentence prev
                   then (if saw then Some (first, lastp)
                         else sentence_begin_loop bs te (first - 1)
                                (if te then first - 1 else lastp) saw)
              else sentence_begin_loop bs te (first - 1) lastp saw)"
  by pat_completeness auto
termination
  by (relation "measure (\<lambda>(bs, te, first, lastp, saw). first)") auto

declare sentence_begin_loop.simps [simp del]

text \<open>
  The forward loop, \<^verbatim>\<open>while (last != buffer.end())\<close>: it stops on an end-of-sentence
  byte and on a newline that ends the buffer or is followed by a newline.
\<close>

function sentence_end_loop :: "string \<Rightarrow> nat \<Rightarrow> nat" where
  "sentence_end_loop bs lastp =
     (if length bs \<le> lastp then lastp
      else let cur = bs ! lastp
           in if is_end_of_sentence cur \<or>
                 (is_eol cur \<and> (lastp + 1 = length bs \<or> is_eol (bs ! (lastp + 1))))
              then lastp
              else sentence_end_loop bs (lastp + 1))"
  by pat_completeness auto
termination
  by (relation "measure (\<lambda>(bs, lastp). length bs - lastp)") auto

declare sentence_end_loop.simps [simp del]

text \<open>
  \<^verbatim>\<open>select_sentence\<close>.  The iterator \<^verbatim>\<open>first-1\<close> taken when \<^verbatim>\<open>ToEnd\<close> is not set lies before
  the buffer when the cursor is its first byte; the model gives \<open>None\<close> there.
\<close>

definition select_sentence ::
  "Buffer \<Rightarrow> Selection \<Rightarrow> int \<Rightarrow> ObjectFlags \<Rightarrow> Selection option option" where
  "select_sentence buffer selection count flags =
     (let bs = bytes buffer; n = length bs in
      do {
        first0 \<leftarrow> iterator_at buffer (cursor selection);
        first1 \<leftarrow> (if \<not> to_end flags
                   then (if first0 = 0 then None
                         else do {
                           prev_non_blank \<leftarrow> skip_while_reverse bs (first0 - 1) 0
                                               (\<lambda>c. is_horizontal_blank c \<or> is_eol c);
                           if n \<le> prev_non_blank then None
                           else Some (if is_end_of_sentence (bs ! prev_non_blank)
                                      then prev_non_blank else first0)
                         })
                   else Some first0);
        (first2, last2) \<leftarrow> (if to_begin flags
                   then do {
                     (f, l) \<leftarrow> sentence_begin_loop bs (to_end flags) first1 first1 False;
                     f' \<leftarrow> skip_while bs f n is_horizontal_blank;
                     Some (f', l)
                   }
                   else Some (first1, first1));
        last3 \<leftarrow> (if to_end flags
                  then (let l = sentence_end_loop bs last2
                        in if \<not> inner flags \<and> l \<noteq> n
                           then do {
                             l' \<leftarrow> skip_while bs (l + 1) n is_horizontal_blank;
                             Some (l' - 1)
                           }
                           else Some l)
                  else Some last2);
        a \<leftarrow> coord buffer (int first2);
        c \<leftarrow> coord buffer (int last3);
        Some (Some (if to_end flags then make_selection a c else make_selection c a))
      })"

section \<open>The argument object\<close>

datatype Class = NoClass | Opening | Closing | Delimiter

definition classify :: "char \<Rightarrow> Class" where
  "classify c =
     (if c = CHR ''('' \<or> c = CHR ''['' \<or> c = CHR ''{'' then Opening
      else if c = CHR '')'' \<or> c = CHR '']'' \<or> c = CHR ''}'' then Closing
      else if c = CHR '','' \<or> c = CHR '';'' then Delimiter
      else NoClass)"

text \<open>
  The backward loop of \<^verbatim>\<open>select_argument\<close>,
  \<^verbatim>\<open>for (int lev = level; begin != buffer.begin(); --begin)\<close>; it returns the iterator
  \<open>begin\<close> and the flag \<open>first_arg\<close>.  The test \<^verbatim>\<open>lev-- == 0\<close> is made, and \<open>lev\<close>
  decremented, only on an opening.
\<close>

function argument_begin_loop :: "string \<Rightarrow> nat \<Rightarrow> int \<Rightarrow> (nat \<times> bool) option" where
  "argument_begin_loop bs beginp lev =
     (if beginp = 0 then Some (beginp, False)
      else if length bs \<le> beginp then None
      else let c = classify (bs ! beginp)
           in if c = Closing then argument_begin_loop bs (beginp - 1) (lev + 1)
              else if c = Opening
                   then (if lev = 0 then Some (beginp + 1, True)
                         else argument_begin_loop bs (beginp - 1) (lev - 1))
              else if c = Delimiter \<and> lev = 0 then Some (beginp + 1, False)
              else argument_begin_loop bs (beginp - 1) lev)"
  by pat_completeness auto
termination
  by (relation "measure (\<lambda>(bs, beginp, lev). beginp)") auto

declare argument_begin_loop.simps [simp del]

text \<open>
  The forward loops: \<open>argument_blanks_loop\<close> is
  \<^verbatim>\<open>while (end + 1 != buffer.end() and is_blank(*(end+1))) ++end\<close>, and
  \<open>argument_end_loop\<close> is \<^verbatim>\<open>for (int lev = level; end != buffer.end(); ++end)\<close>, which
  returns the iterator \<open>end\<close> and the flag \<open>last_arg\<close>.  The test \<^verbatim>\<open>lev-- == 0\<close> is made
  only on a closing that is not under \<open>pos\<close>.
\<close>

function argument_blanks_loop :: "string \<Rightarrow> nat \<Rightarrow> nat" where
  "argument_blanks_loop bs endp =
     (if endp + 1 < length bs \<and> is_blank (bs ! (endp + 1))
      then argument_blanks_loop bs (endp + 1) else endp)"
  by pat_completeness auto
termination
  by (relation "measure (\<lambda>(bs, endp). length bs - endp)") auto

declare argument_blanks_loop.simps [simp del]

function argument_end_loop ::
  "string \<Rightarrow> nat \<Rightarrow> bool \<Rightarrow> ObjectFlags \<Rightarrow> nat \<Rightarrow> int \<Rightarrow> nat \<times> bool" where
  "argument_end_loop bs pos first_arg flags endp lev =
     (if length bs \<le> endp then (endp, False)
      else let c = classify (bs ! endp)
           in if c = Opening then argument_end_loop bs pos first_arg flags (endp + 1) (lev + 1)
              else if endp \<noteq> pos \<and> c = Closing
                   then (if lev = 0 then (endp - 1, True)
                         else argument_end_loop bs pos first_arg flags (endp + 1) (lev - 1))
              else if c = Delimiter \<and> lev = 0
                   then (if first_arg \<and> \<not> inner flags
                         then (argument_blanks_loop bs endp, False)
                         else (endp, False))
              else argument_end_loop bs pos first_arg flags (endp + 1) lev)"
  by pat_completeness auto
termination
  by (relation "measure (\<lambda>(bs, pos, first_arg, flags, endp, lev). length bs - endp)") auto

declare argument_end_loop.simps [simp del]

text \<open>
  \<^verbatim>\<open>select_argument\<close>.  The decrements \<^verbatim>\<open>--end\<close> and \<^verbatim>\<open>--begin\<close> of an iterator that
  stands on the first byte of the buffer are not defined and give \<open>None\<close>.
\<close>

definition select_argument ::
  "Buffer \<Rightarrow> Selection \<Rightarrow> int \<Rightarrow> ObjectFlags \<Rightarrow> Selection option option" where
  "select_argument buffer selection level flags =
     (let bs = bytes buffer; n = length bs in
      do {
        pos0 \<leftarrow> iterator_at buffer (cursor selection);
        pos \<leftarrow> (if n \<le> pos0 then None
                else Some (if (classify (bs ! pos0) = Opening \<or>
                               classify (bs ! pos0) = Delimiter) \<and> pos0 \<noteq> 0
                           then pos0 - 1 else pos0));
        (begin1, first_arg) \<leftarrow> argument_begin_loop bs pos level;
        (end1, last_arg) \<leftarrow> Some (argument_end_loop bs pos first_arg flags pos level);
        (begin2, end2) \<leftarrow>
           (if inner flags
            then do {
              e \<leftarrow> (if \<not> last_arg then (if end1 = 0 then None else Some (end1 - 1))
                    else Some end1);
              b \<leftarrow> skip_while bs begin1 e is_blank;
              e' \<leftarrow> skip_while_reverse bs e b is_blank;
              Some (b, e')
            }
            else if \<not> first_arg \<and> last_arg
            then (if begin1 = 0 then None else Some (begin1 - 1, end1))
            else Some (begin1, end1));
        end3 \<leftarrow> (if end2 = n then (if end2 = 0 then None else Some (end2 - 1)) else Some end2);
        cpos \<leftarrow> coord buffer (int pos);
        cbegin \<leftarrow> coord buffer (int begin2);
        cend \<leftarrow> coord buffer (int end3);
        Some (Some (if to_begin flags \<and> \<not> to_end flags then make_selection cpos cbegin
                    else make_selection (if to_begin flags then cbegin else cpos) cend))
      })"

section \<open>Stepping over UTF-8\<close>

text \<open>
  Modelled from the spec: the UTF-8 primitives are defined in a header that is not part
  of the sources.  \<^verbatim>\<open>utf8::next(it, end)\<close> advances one codepoint but saturates at \<open>end\<close>,
  \<^verbatim>\<open>utf8::previous(it, begin)\<close> retreats one codepoint but saturates at \<open>begin\<close>, and
  neither lands on a continuation byte (a byte \<open>10xxxxxx\<close>): after one step they go on
  over continuation bytes.
\<close>

definition is_continuation :: "char \<Rightarrow> bool" where
  "is_continuation c = (128 \<le> (of_char c :: nat) \<and> (of_char c :: nat) < 192)"

function to_next_loop :: "string \<Rightarrow> nat \<Rightarrow> nat \<Rightarrow> nat" where
  "to_next_loop bs it endp =
     (if it \<noteq> endp \<and> it < length bs \<and> is_continuation (bs ! it)
      then to_next_loop bs (Suc it) endp else it)"
  by pat_completeness auto
termination
  by (relation "measure (\<lambda>(bs, it, endp). length bs - it)") auto

declare to_next_loop.simps [simp del]

definition utf8_next :: "string \<Rightarrow> nat \<Rightarrow> nat \<Rightarrow> nat" where
  "utf8_next bs it endp = (if it = endp then it else to_next_loop bs (Suc it) endp)"

function to_previous_loop :: "string \<Rightarrow> nat \<Rightarrow> nat \<Rightarrow> nat" where
  "to_previous_loop bs it beginp =
     (if it \<noteq> beginp \<and> 0 < it \<and> it < length bs \<and> is_continuation (bs ! it)
      then to_previous_loop bs (it - 1) beginp else it)"
  by pat_completeness auto
termination
  by (relation "measure (\<lambda>(bs, it, beginp). it)") auto

declare to_previous_loop.simps [simp del]

definition utf8_previous :: "string \<Rightarrow> nat \<Rightarrow> nat \<Rightarrow> nat" where
  "utf8_previous bs it beginp =
     (if it = beginp \<or> it = 0 then it else to_previous_loop bs (it - 1) beginp)"

section \<open>The matching bracket\<close>

text \<open>
  Modelled from the spec: a \<^verbatim>\<open>Utf8Iterator\<close> yields one codepoint per step.  Its
  increment and decrement are \<open>utf8_next\<close> up to the end of the buffer and
  \<open>utf8_previous\<close> down to its beginning; \<open>utf8_codepoint\<close> is the codepoint it reads, the
  byte itself for a byte below 128 and the value of the multi-byte sequence it starts
  otherwise.
\<close>

definition utf8_codepoint :: "string \<Rightarrow> nat \<Rightarrow> nat" where
  "utf8_codepoint bs it =
     (let byte = (\<lambda>i. if i < length bs then (of_char (bs ! i) :: nat) else 0);
          b0 = byte it
      in if b0 < 128 then b0
         else if b0 div 32 = 6 then (b0 mod 32) * 64 + byte (it + 1) mod 64
         else if b0 div 16 = 14
              then (b0 mod 16) * 4096 + (byte (it + 1) mod 64) * 64 + byte (it + 2) mod 64
         else if b0 div 8 = 30
              then (b0 mod 8) * 262144 + (byte (it + 1) mod 64) * 4096
                   + (byte (it + 2) mod 64) * 64 + byte (it + 3) mod 64
         else b0)"

definition is_eol_cp :: "nat \<Rightarrow> bool" where
  "is_eol_cp c = (c = 10)"

text \<open>
  The table \<^verbatim>\<open>matching_pairs\<close> of \<^verbatim>\<open>select_matching\<close>, and \<^verbatim>\<open>std::find\<close> over it as the
  index of the first entry equal to a codepoint (the length of the table for none).
\<close>

definition matching_pairs :: "nat list" where
  "matching_pairs = map of_char ''(){}[]<>''"

fun find_index_of :: "nat \<Rightarrow> nat list \<Rightarrow> nat" where
  "find_index_of c [] = 0"
| "find_index_of c (x # xs) = (if x = c then 0 else Suc (find_index_of c xs))"

text \<open>Both steps make progress, which bounds the loops below.\<close>

lemma to_next_loop_step:
  assumes "it \<noteq> endp \<and> it < length bs \<and> is_continuation (bs ! it)"
  shows "to_next_loop bs it endp = to_next_loop bs (Suc it) endp"
  by (subst to_next_loop.simps) (rule if_P [OF assms])

lemma to_next_loop_stop:
  assumes "\<not> (it \<noteq> endp \<and> it < length bs \<and> is_continuation (bs ! it))"
  shows "to_next_loop bs it endp = it"
  by (subst to_next_loop.simps) (rule if_not_P [OF assms])

lemma to_next_loop_ge: "it \<le> to_next_loop bs it endp"
proof (induction bs it endp rule: to_next_loop.induct)
  case (1 bs it endp)
  show ?case
  proof (cases "it \<noteq> endp \<and> it < length bs \<and> is_continuation (bs ! it)")
    case True
    from 1 [OF True] have le: "Suc it \<le> to_next_loop bs (Suc it) endp" .
    from le to_next_loop_step [OF True] show ?thesis by linarith
  next
    case False
    from to_next_loop_stop [OF False] show ?thesis by linarith
  qed
qed

lemma utf8_next_gt: "it \<noteq> endp \<Longrightarrow> it < utf8_next bs it endp"
  using to_next_loop_ge [of "Suc it" bs endp] by (simp add: utf8_next_def)

lemma to_previous_loop_step:
  assumes "it \<noteq> beginp \<and> 0 < it \<and> it < length bs \<and> is_continuation (bs ! it)"
  shows "to_previous_loop bs it beginp = to_previous_loop bs (it - 1) beginp"
  by (subst to_previous_loop.simps) (rule if_P [OF assms])

lemma to_previous_loop_stop:
  assumes "\<not> (it \<noteq> beginp \<and> 0 < it \<and> it < length bs \<and> is_continuation (bs ! it))"
  shows "to_previous_loop bs it beginp = it"
  by (subst to_previous_loop.simps) (rule if_not_P [OF assms])

lemma to_previous_loop_le: "to_previous_loop bs it beginp \<le> it"
proof (induction bs it beginp rule: to_previous_loop.induct)
  case (1 bs it beginp)
  show ?case
  proof (cases "it \<noteq> beginp \<and> 0 < it \<and> it < length bs \<and> is_continuation (bs ! it)")
    case True
    from 1 [OF True] have le: "to_previous_loop bs (it - 1) beginp \<le> it - 1" .
    from le to_previous_loop_step [OF True] show ?thesis by linarith
  next
    case False
    from to_previous_loop_stop [OF False] show ?thesis by linarith
  qed
qed

lemma utf8_previous_lt: "0 < it \<Longrightarrow> utf8_previous bs it 0 < it"
  using to_previous_loop_le [of bs "it - 1" 0] by (simp add: utf8_previous_def)

text \<open>
  The first loop of \<^verbatim>\<open>select_matching\<close>, \<^verbatim>\<open>while (not is_eol(*it))\<close>: it returns
  \<open>Some None\<close> on an end of line (\<^verbatim>\<open>match\<close> is still the end of the table), and the
  iterator with the index of the bracket found otherwise.  The source has no test
  against the end of the buffer here; reading past it gives \<open>None\<close>.
\<close>

function matching_scan :: "string \<Rightarrow> nat \<Rightarrow> (nat \<times> nat) option option" where
  "matching_scan bs it =
     (if length bs \<le> it then None
      else let c = utf8_codepoint bs it
           in if is_eol_cp c then Some None
              else let m = find_index_of c matching_pairs
                   in if m \<noteq> length matching_pairs then Some (Some (it, m))
                      else matching_scan bs (utf8_next bs it (length bs)))"
  by pat_completeness auto
termination
proof (relation "measure (\<lambda>(bs, it). length bs - it)", goal_cases)
  case 1
  show ?case by simp
next
  case (2 bs it c m)
  from 2(1) have lt: "it < length bs" by simp
  then have "it < utf8_next bs it (length bs)" by (intro utf8_next_gt) simp
  with lt show ?case by simp
qed

declare matching_scan.simps [simp del]

text \<open>
  The loop for an opening bracket, \<^verbatim>\<open>while (it != buffer.end())\<close>, and the loop for a
  closing bracket, \<^verbatim>\<open>while (true)\<close> left at the beginning of the buffer.  Both return
  the iterator of the matching bracket, or \<open>None\<close> when the loop ends without one.  The
  test \<^verbatim>\<open>--level == 0\<close> decrements the level on every bracket of the second kind.
\<close>

function matching_forward :: "string \<Rightarrow> nat \<Rightarrow> nat \<Rightarrow> nat \<Rightarrow> int \<Rightarrow> nat option" where
  "matching_forward bs opening closing it level =
     (if length bs \<le> it then None
      else let c = utf8_codepoint bs it
           in if c = opening
              then matching_forward bs opening closing (utf8_next bs it (length bs)) (level + 1)
              else if c = closing \<and> level - 1 = 0 then Some it
              else matching_forward bs opening closing (utf8_next bs it (length bs))
                     (if c = closing then level - 1 else level))"
  by pat_completeness auto
termination
proof (relation "measure (\<lambda>(bs, opening, closing, it, level). length bs - it)", goal_cases)
  case 1
  show ?case by simp
next
  case (2 bs opn cls it level c)
  from 2(1) have lt: "it < length bs" by simp
  then have "it < utf8_next bs it (length bs)" by (intro utf8_next_gt) simp
  with lt show ?case by simp
next
  case (3 bs opn cls it level c)
  from 3(1) have lt: "it < length bs" by simp
  then have "it < utf8_next bs it (length bs)" by (intro utf8_next_gt) simp
  with lt show ?case by simp
qed

declare matching_forward.simps [simp del]

function matching_backward :: "string \<Rightarrow> nat \<Rightarrow> nat \<Rightarrow> nat \<Rightarrow> int \<Rightarrow> nat option" where
  "matching_backward bs opening closing it level =
     (let c = utf8_codepoint bs it
      in if c = closing
         then (if it = 0 then None
               else matching_backward bs opening closing (utf8_previous bs it 0) (level + 1))
         else if c = opening \<and> level - 1 = 0 then Some it
         else if it = 0 then None
         else matching_backward bs opening closing (utf8_previous bs it 0)
                (if c = opening then level - 1 else level))"
  by pat_completeness auto
termination
proof (relation "measure (\<lambda>(bs, opening, closing, it, level). it)", goal_cases)
  case 1
  show ?case by simp
next
  case (2 bs opn cls it level c)
  from 2 have "0 < it" by simp
  then show ?case using utf8_previous_lt [of it bs] by simp
next
  case (3 bs opn cls it level c)
  from 3 have "0 < it" by simp
  then show ?case using utf8_previous_lt [of it bs] by simp
qed

declare matching_backward.simps [simp del]

definition select_matching :: "Buffer \<Rightarrow> Selection \<Rightarrow> Selection option option" where
  "select_matching buffer selection =
     (let bs = bytes buffer
      in case iterator_at buffer (cursor selection) of None \<Rightarrow> None
         | Some it0 \<Rightarrow>
            (case matching_scan bs it0 of None \<Rightarrow> None
             | Some None \<Rightarrow> Some None
             | Some (Some (it, m)) \<Rightarrow>
                if m mod 2 = 0
                then (case matching_forward bs (matching_pairs ! m) (matching_pairs ! (m + 1))
                             it 0 of
                        None \<Rightarrow> Some None
                      | Some e \<Rightarrow> map_option Some (utf8_range buffer (int it, int e)))
                else (case matching_backward bs (matching_pairs ! (m - 1)) (matching_pairs ! m)
                             it 0 of
                        None \<Rightarrow> Some None
                      | Some e \<Rightarrow> map_option Some (utf8_range buffer (int it, int e)))))"

text \<open>
  The matching bracket in the words of the spec.  \<open>cp_positions bs it\<close> are the
  positions of the codepoints from \<open>it\<close> to the end of the buffer, and
  \<open>cp_positions_back bs it\<close> those from \<open>it\<close> back to its beginning.  \<open>nesting up down cs\<close>
  counts the brackets \<open>up\<close> minus the brackets \<open>down\<close> among the codepoints \<open>cs\<close>.  A
  sequence of positions is balanced at index \<open>k\<close> when the bracket \<open>down\<close> stands there
  and the nesting of the codepoints up to and including it, added to the starting
  level, is zero; \<open>first_balanced\<close> is the first position at which it is.
\<close>

function cp_positions :: "string \<Rightarrow> nat \<Rightarrow> nat list" where
  "cp_positions bs it =
     (if it < length bs then it # cp_positions bs (utf8_next bs it (length bs)) else [])"
  by pat_completeness auto
termination
proof (relation "measure (\<lambda>(bs, it). length bs - it)", goal_cases)
  case 1
  show ?case by simp
next
  case (2 bs it)
  then have "it < utf8_next bs it (length bs)" by (intro utf8_next_gt) simp
  with 2 show ?case by simp
qed

declare cp_positions.simps [simp del]

function cp_positions_back :: "string \<Rightarrow> nat \<Rightarrow> nat list" where
  "cp_positions_back bs it =
     it # (if it = 0 then [] else cp_positions_back bs (utf8_previous bs it 0))"
  by pat_completeness auto
termination
proof (relation "measure (\<lambda>(bs, it). it)", goal_cases)
  case 1
  show ?case by simp
next
  case (2 bs it)
  then show ?case using utf8_previous_lt [of it bs] by simp
qed

declare cp_positions_back.simps [simp del]

definition nesting :: "nat \<Rightarrow> nat \<Rightarrow> nat list \<Rightarrow> int" where
  "nesting up down cs = int (count_list cs up) - int (count_list cs down)"

definition balanced_at :: "string \<Rightarrow> nat \<Rightarrow> nat \<Rightarrow> int \<Rightarrow> nat list \<Rightarrow> nat \<Rightarrow> bool" where
  "balanced_at bs up down level ps k =
     (utf8_codepoint bs (ps ! k) = down \<and>
      level + nesting up down (map (utf8_codepoint bs) (take (Suc k) ps)) = 0)"

definition first_balanced :: "string \<Rightarrow> nat \<Rightarrow> nat \<Rightarrow> int \<Rightarrow> nat list \<Rightarrow> nat option" where
  "first_balanced bs up down level ps =
     map_option (\<lambda>k. ps ! k) (find (balanced_at bs up down level ps) [0..<length ps])"

definition is_bracket :: "nat \<Rightarrow> bool" where
  "is_bracket c = (c \<in> set matching_pairs)"

text \<open>
  \<open>matching_bracket_spec\<close> follows the spec: from the cursor, take the first codepoint
  that is an end of line or one of the eight brackets; fail on the end of line;
  otherwise return the span from the bracket to the first position where the nesting
  is balanced, going forward to the other bracket of the pair for an opening bracket
  and backward for a closing one, and fail when there is no such position.
\<close>

definition is_opening_bracket :: "nat \<Rightarrow> bool" where
  "is_opening_bracket c = (c \<in> set (map of_char ''({[<''))"

definition partner :: "nat \<Rightarrow> nat" where
  "partner c =
     (if c = of_char CHR ''('' then of_char CHR '')''
      else if c = of_char CHR '')'' then of_char CHR ''(''
      else if c = of_char CHR ''{'' then of_char CHR ''}''
      else if c = of_char CHR ''}'' then of_char CHR ''{''
      else if c = of_char CHR ''['' then of_char CHR '']''
      else if c = of_char CHR '']'' then of_char CHR ''[''
      else if c = of_char CHR ''<'' then of_char CHR ''>''
      else if c = of_char CHR ''>'' then of_char CHR ''<''
      else c)"

definition matching_bracket_spec :: "Buffer \<Rightarrow> Selection \<Rightarrow> Selection option option" where
  "matching_bracket_spec buffer selection =
     (let bs = bytes buffer
      in case iterator_at buffer (cursor selection) of None \<Rightarrow> None
         | Some it0 \<Rightarrow>
            (case find (\<lambda>p. is_eol_cp (utf8_codepoint bs p) \<or> is_bracket (utf8_codepoint bs p))
                    (cp_positions bs it0) of
               None \<Rightarrow> None
             | Some p \<Rightarrow>
                (let c = utf8_codepoint bs p
                 in if is_eol_cp c then Some None
                    else case first_balanced bs c (partner c) 0
                                (if is_opening_bracket c then cp_positions bs p
                                 else cp_positions_back bs p) of
                           None \<Rightarrow> Some None
                         | Some q \<Rightarrow> map_option Some (utf8_range buffer (int p, int q)))))"

section \<open>Regex-driven list operations\<close>

text \<open>
  The operations on a selection list throw \<^verbatim>\<open>runtime_error\<close> with a message; a thrown
  error is a value of the model.
\<close>

datatype error = runtime_error string

text \<open>
  The regex collaborator is not part of the sources and is a parameter of the model.  A
  \<open>Regex\<close> gives its pattern text \<^verbatim>\<open>str()\<close> and its \<^verbatim>\<open>mark_count()\<close>.  A \<open>MatchResults\<close> is
  the list of the sub-matches of one match, each a pair of iterators
  \<^verbatim>\<open>(first, second)\<close>, the whole match at index 0 and the captures after it.  A
  \<open>RegexEngine\<close> holds what the selectors call: \<open>match_flags\<close>, the anchor flags of a
  search window (\<^verbatim>\<open>match_flags(buffer, begin, end)\<close>, made only of calls to absent
  functions); \<open>regex_search\<close> and \<open>regex_search_backward\<close>, the two directions of
  \<^verbatim>\<open>regex_search(begin, end, matches, ex, flags)\<close>, returning the match found or \<open>None\<close>;
  and \<open>regex_iterator\<close>, the matches a \<^verbatim>\<open>RegexIterator\<close> over a window enumerates.
\<close>

datatype RegexExecFlag =
  NotBeginOfLine | NotEndOfLine | NotBeginOfWord | NotEndOfWord | NotInitialNull

type_synonym MatchResults = "(nat \<times> nat) list"

record Regex =
  str :: string
  mark_count :: nat

record RegexEngine =
  match_flags :: "Buffer \<Rightarrow> nat \<Rightarrow> nat \<Rightarrow> RegexExecFlag set"
  regex_search :: "Regex \<Rightarrow> Buffer \<Rightarrow> nat \<Rightarrow> nat \<Rightarrow> RegexExecFlag set \<Rightarrow> MatchResults option"
  regex_search_backward ::
    "Regex \<Rightarrow> Buffer \<Rightarrow> nat \<Rightarrow> nat \<Rightarrow> RegexExecFlag set \<Rightarrow> MatchResults option"
  regex_iterator :: "Regex \<Rightarrow> Buffer \<Rightarrow> nat \<Rightarrow> nat \<Rightarrow> RegexExecFlag set \<Rightarrow> MatchResults list"

text \<open>
  Modelled from the spec: a \<^verbatim>\<open>SelectionList\<close> is a list of selections over one buffer.
  The main index it also keeps is bookkeeping of the absent class and is left out; an
  assignment of a vector of selections stores the vector.  Its selections are valid
  coordinates of its buffer (the invariant of the class) and the iterators of a match
  lie in the searched window, so \<open>offset_of\<close> and \<open>coord_of\<close> convert between coordinates
  and iterators without a check.  \<open>buffer_string\<close> is \<^verbatim>\<open>buffer.string(first, second)\<close>, and
  \<open>keep_direction\<close> swaps anchor and cursor of its first argument when its direction
  differs from that of the second.
\<close>

record SelectionList =
  buffer_of :: Buffer
  selections_of :: "Selection list"

definition offset_of :: "Buffer \<Rightarrow> BufferCoord \<Rightarrow> nat" where
  "offset_of b c = length (concat (take (nat (line c)) b)) + nat (column c)"

definition coord_of :: "Buffer \<Rightarrow> nat \<Rightarrow> BufferCoord" where
  "coord_of b i = coord_from b 0 i"

definition buffer_string :: "Buffer \<Rightarrow> nat \<Rightarrow> nat \<Rightarrow> string" where
  "buffer_string b first second = take (second - first) (drop first (bytes b))"

definition keep_direction :: "Selection \<Rightarrow> Selection \<Rightarrow> Selection" where
  "keep_direction res ref =
     (if coord_less (cursor res) (anchor res) \<noteq> coord_less (cursor ref) (anchor ref)
      then res\<lparr>anchor := cursor res, cursor := anchor res\<rparr> else res)"

text \<open>
  \<^verbatim>\<open>select_all_matches\<close>.  \<open>match_selection\<close> is the body of its inner loop for one
  match: \<open>None\<close> when the loop \<^verbatim>\<open>continue\<close>s, otherwise the selection pushed onto
  \<open>result\<close>.  \<open>all_matches_of\<close> is the inner loop for one selection, and
  \<open>all_matches_result\<close> the vector \<open>result\<close> after the outer loop.  The operation returns
  the error thrown, if any, with the selection list as the call leaves it.
\<close>

definition match_capture_list :: "Buffer \<Rightarrow> MatchResults \<Rightarrow> string list" where
  "match_capture_list b m = map (\<lambda>(first, second). buffer_string b first second) m"

definition match_selection ::
  "Buffer \<Rightarrow> Selection \<Rightarrow> nat \<Rightarrow> nat \<Rightarrow> MatchResults \<Rightarrow> Selection option" where
  "match_selection b sel sel_end capture m =
     (let beginp = fst (m ! capture)
      in if beginp = sel_end then None
         else let endp = snd (m ! capture)
              in Some (keep_direction
                   \<lparr>anchor = coord_of b beginp,
                    cursor = coord_of b (if beginp = endp then endp
                                         else utf8_previous (bytes b) endp beginp),
                    target = None,
                    captures = match_capture_list b m\<rparr> sel))"

definition all_matches_of ::
  "RegexEngine \<Rightarrow> Buffer \<Rightarrow> Regex \<Rightarrow> nat \<Rightarrow> Selection \<Rightarrow> Selection list" where
  "all_matches_of eng b regex capture sel =
     (let sel_beg = offset_of b (sel_min sel);
          sel_end = utf8_next (bytes b) (offset_of b (sel_max sel)) (length (bytes b))
      in List.map_filter (match_selection b sel sel_end capture)
           (regex_iterator eng regex b sel_beg sel_end (match_flags eng b sel_beg sel_end)))"

definition all_matches_result ::
  "RegexEngine \<Rightarrow> SelectionList \<Rightarrow> Regex \<Rightarrow> nat \<Rightarrow> Selection list" where
  "all_matches_result eng selections regex capture =
     concat (map (all_matches_of eng (buffer_of selections) regex capture)
               (selections_of selections))"

definition select_all_matches ::
  "RegexEngine \<Rightarrow> SelectionList \<Rightarrow> Regex \<Rightarrow> int \<Rightarrow> error option \<times> SelectionList" where
  "select_all_matches eng selections regex capture =
     (if capture < 0 \<or> capture > int (mark_count regex)
      then (Some (runtime_error ''invalid capture number''), selections)
      else let result = all_matches_result eng selections regex (nat capture)
           in if result = [] then (Some (runtime_error ''nothing selected''), selections)
              else (None, selections\<lparr>selections_of := result\<rparr>))"

text \<open>
  \<^verbatim>\<open>split_selections\<close>.  \<open>split_matches\<close> is its inner loop over the matches of one
  selection, carrying the iterator \<open>begin\<close> and the vector \<open>result\<close>; \<open>split_of\<close> adds the
  last piece of the selection, and \<open>split_result\<close> is the vector after the outer loop.
\<close>

fun split_matches ::
  "Buffer \<Rightarrow> Selection \<Rightarrow> nat \<Rightarrow> MatchResults list \<Rightarrow> nat \<Rightarrow> Selection list
     \<Rightarrow> nat \<times> Selection list" where
  "split_matches b sel capture [] beginp acc = (beginp, acc)"
| "split_matches b sel capture (m # ms) beginp acc =
     (let endp = fst (m ! capture)
      in if endp = length (bytes b) then split_matches b sel capture ms beginp acc
         else split_matches b sel capture ms (snd (m ! capture))
                (if endp \<noteq> 0
                 then acc @ [keep_direction
                        (make_selection (coord_of b beginp)
                           (coord_of b (if beginp = endp then endp
                                        else utf8_previous (bytes b) endp beginp))) sel]
                 else acc))"

definition split_of ::
  "RegexEngine \<Rightarrow> Buffer \<Rightarrow> Regex \<Rightarrow> nat \<Rightarrow> Selection \<Rightarrow> Selection list" where
  "split_of eng b regex capture sel =
     (let beginp = offset_of b (sel_min sel);
          sel_end = utf8_next (bytes b) (offset_of b (sel_max sel)) (length (bytes b));
          (beginp', acc) = split_matches b sel capture
             (regex_iterator eng regex b beginp sel_end (match_flags eng b beginp sel_end))
             beginp []
      in if coord_le (coord_of b beginp') (sel_max sel)
         then acc @ [keep_direction (make_selection (coord_of b beginp') (sel_max sel)) sel]
         else acc)"

definition split_result ::
  "RegexEngine \<Rightarrow> SelectionList \<Rightarrow> Regex \<Rightarrow> nat \<Rightarrow> Selection list" where
  "split_result eng selections regex capture =
     concat (map (split_of eng (buffer_of selections) regex capture)
               (selections_of selections))"

definition split_selections ::
  "RegexEngine \<Rightarrow> SelectionList \<Rightarrow> Regex \<Rightarrow> int \<Rightarrow> error option \<times> SelectionList" where
  "split_selections eng selections regex capture =
     (if capture < 0 \<or> capture > int (mark_count regex)
      then (Some (runtime_error ''invalid capture number''), selections)
      else let result = split_result eng selections regex (nat capture)
           in if result = [] then (Some (runtime_error ''nothing selected''), selections)
              else (None, selections\<lparr>selections_of := result\<rparr>))"

text \<open>
  \<^verbatim>\<open>find_next_match\<close>.  \<open>find_next\<close> and \<open>find_prev\<close> return what the search found with
  the value they leave in the out-parameter \<^verbatim>\<open>wrapped\<close>, which the caller has set to
  false; \<open>find_next_match\<close> returns the selection or the error thrown, with \<^verbatim>\<open>wrapped\<close>.
\<close>

datatype MatchDirection = Forward | Backward

definition find_next ::
  "RegexEngine \<Rightarrow> Buffer \<Rightarrow> nat \<Rightarrow> Regex \<Rightarrow> MatchResults option \<times> bool" where
  "find_next eng buffer pos ex =
     (let n = length (bytes buffer)
      in case (if pos \<noteq> n
               then regex_search eng ex buffer pos n (match_flags eng buffer pos n)
               else None) of
           Some matches \<Rightarrow> (Some matches, False)
         | None \<Rightarrow> (regex_search eng ex buffer 0 n (match_flags eng buffer 0 n), True))"

definition find_prev ::
  "RegexEngine \<Rightarrow> Buffer \<Rightarrow> nat \<Rightarrow> Regex \<Rightarrow> MatchResults option \<times> bool" where
  "find_prev eng buffer pos ex =
     (let n = length (bytes buffer)
      in case (if pos \<noteq> 0
               then regex_search_backward eng ex buffer 0 pos
                      (insert NotInitialNull (match_flags eng buffer 0 pos))
               else None) of
           Some matches \<Rightarrow> (Some matches, False)
         | None \<Rightarrow> (regex_search_backward eng ex buffer 0 n
                       (insert NotInitialNull (match_flags eng buffer 0 n)), True))"

definition no_matches_found :: "Regex \<Rightarrow> error" where
  "no_matches_found regex =
     runtime_error ([CHR 0x27] @ str regex @ [CHR 0x27] @ '': no matches found'')"

definition find_next_match ::
  "RegexEngine \<Rightarrow> MatchDirection \<Rightarrow> Buffer \<Rightarrow> Selection \<Rightarrow> Regex
     \<Rightarrow> (error + Selection) \<times> bool" where
  "find_next_match eng direction buffer sel regex =
     (let bs = bytes buffer; n = length bs;
          pos = offset_of buffer (if direction = Backward then sel_min sel else sel_max sel);
          (found, wrapped) =
             (if direction = Forward then find_next eng buffer (utf8_next bs pos n) regex
              else find_prev eng buffer pos regex)
      in case found of
           None \<Rightarrow> (Inl (no_matches_found regex), wrapped)
         | Some matches \<Rightarrow>
             if fst (matches ! 0) = n then (Inl (no_matches_found regex), wrapped)
             else let beginp = fst (matches ! 0);
                      endp = snd (matches ! 0);
                      endp' = (if beginp = endp then endp else utf8_previous bs endp beginp);
                      caps = match_capture_list buffer matches
                  in (Inr (if direction = Backward
                           then \<lparr>anchor = coord_of buffer endp', cursor = coord_of buffer beginp,
                                 target = None, captures = caps\<rparr>
                           else \<lparr>anchor = coord_of buffer beginp, cursor = coord_of buffer endp',
                                 target = None, captures = caps\<rparr>), wrapped))"

text \<open>
  An engine for the examples: the pattern is a single byte, each occurrence of it in
  the window is a match, and there are no captures.
\<close>

definition single_byte_engine :: RegexEngine where
  "single_byte_engine =
     \<lparr>match_flags = (\<lambda>b i j. {}),
      regex_search = (\<lambda>r b i j f.
         case filter (\<lambda>k. [bytes b ! k] = str r) [i..<j] of [] \<Rightarrow> None
         | k # _ \<Rightarrow> Some [(k, Suc k)]),
      regex_search_backward = (\<lambda>r b i j f.
         case filter (\<lambda>k. [bytes b ! k] = str r) (rev [i..<j]) of [] \<Rightarrow> None
         | k # _ \<Rightarrow> Some [(k, Suc k)]),
      regex_iterator = (\<lambda>r b i j f.
         map (\<lambda>k. [(k, Suc k)]) (filter (\<lambda>k. [bytes b ! k] = str r) [i..<j]))\<rparr>"

section \<open>The scenarios of the unit test\<close>

text \<open>
  Claim C1.  On each row of the scenario table, \<open>find_surrounding\<close> returns the listed
  span: the braces around offset 10, the inside of the outer brackets, the whole string
  from offset 0, the degenerate inner \<open>]\<close> at offset 12, the pair \<open>[]\<close>, no result for
  \<open>[*][] hehe\<close> at offset 6 with \<^verbatim>\<open>ToBegin\<close>, and the whole
  \<open>begin tchou begin tchaa end end\<close>.
\<close>

theorem find_surrounding_scenarios:
  "found_text ''[salut { toi[] }]''
     (find_surrounding ''[salut { toi[] }]'' 10 ''{'' ''}'' (flags_or ToBegin ToEnd) 0)
     = Some (Some ''{ toi[] }'')
   \<and> found_text ''[salut { toi[] }]''
     (find_surrounding ''[salut { toi[] }]'' 10 ''['' '']''
        (flags_or (flags_or ToBegin ToEnd) Inner) 0)
     = Some (Some ''salut { toi[] }'')
   \<and> found_text ''[salut { toi[] }]''
     (find_surrounding ''[salut { toi[] }]'' 0 ''['' '']'' (flags_or ToBegin ToEnd) 0)
     = Some (Some ''[salut { toi[] }]'')
   \<and> found_text ''[salut { toi[] }]''
     (find_surrounding ''[salut { toi[] }]'' 12 ''['' '']''
        (flags_or (flags_or ToBegin ToEnd) Inner) 0)
     = Some (Some '']'')
   \<and> found_text ''[]''
     (find_surrounding ''[]'' 1 ''['' '']'' (flags_or ToBegin ToEnd) 0)
     = Some (Some ''[]'')
   \<and> find_surrounding ''[*][] hehe'' 6 ''['' '']'' ToBegin 0 = Some None
   \<and> found_text ''begin tchou begin tchaa end end''
     (find_surrounding ''begin tchou begin tchaa end end'' 6 ''begin'' ''end''
        (flags_or ToBegin ToEnd) 0)
     = Some (Some ''begin tchou begin tchaa end end'')"
  by code_simp

section \<open>Growing and level in \<open>select_surrounding\<close>\<close>

lemma find_closing_level_unused:
  "find_closing xs pos endp opening closing init_level False =
   find_closing xs pos endp opening closing 0 False"
  by (simp add: find_closing_def)

lemma find_surrounding_same_delimiter:
  "find_surrounding s pos d d flags l = find_surrounding s pos d d flags l'"
  by (simp add: find_surrounding_def find_closing_def Let_def)

lemma surrounding_range_same_delimiter:
  "surrounding_range b pos d d flags l = surrounding_range b pos d d flags l'"
  by (simp add: surrounding_range_def surrounding_range_with_def
      find_surrounding_same_delimiter [of _ _ _ _ l l'] cong: option.case_cong)

lemma select_surrounding_same_delimiter:
  "select_surrounding buffer selection d d level flags
     = surrounding_range buffer (cursor selection) d d flags level"
  by (simp add: select_surrounding_def select_surrounding_with_def surrounding_range_def)


text \<open>
  With \<^verbatim>\<open>ToBegin\<close> alone and the opening under \<open>pos\<close>, \<open>find_surrounding\<close> makes no
  search at all (the test \<^verbatim>\<open>to_begin and opening != *pos\<close> fails and \<^verbatim>\<open>to_end\<close> is not
  set): it returns \<open>pos\<close> itself and never reads the level.
\<close>

lemma find_surrounding_on_opening:
  assumes "pos < length s" and "[s ! pos] = opening"
  shows "find_surrounding s pos opening closing ToBegin level = Some (Some (int pos, int pos))"
  using assms by (simp add: find_surrounding_def ToBegin_def Let_def)



text \<open>
  Claim C10.  For a pair that cannot nest, \<open>find_closing\<close> ignores the level it is given
  and searches as at level 0; so when the opening and the closing are the same string,
  the results of \<open>find_surrounding\<close> and of \<open>select_surrounding\<close> do not depend on the
  level.
\<close>

theorem select_surrounding_level_independent:
  "find_closing xs pos endp opening closing init_level False
     = find_closing xs pos endp opening closing 0 False
   \<and> (opening = closing \<longrightarrow>
        find_surrounding s it opening closing flags level
          = find_surrounding s it opening closing flags level'
        \<and> select_surrounding buffer selection opening closing level flags
          = select_surrounding buffer selection opening closing level' flags)"
proof (intro conjI impI)
  show "find_closing xs pos endp opening closing init_level False
     = find_closing xs pos endp opening closing 0 False"
    by (rule find_closing_level_unused)
next
  assume "opening = closing"
  then show "find_surrounding s it opening closing flags level
          = find_surrounding s it opening closing flags level'"
    by (simp add: find_surrounding_same_delimiter [of _ _ _ _ level level'])
next
  assume "opening = closing"
  then show "select_surrounding buffer selection opening closing level flags
          = select_surrounding buffer selection opening closing level' flags"
    by (simp add: select_surrounding_same_delimiter
        surrounding_range_same_delimiter [of _ _ _ _ level level'])
qed

text \<open>
  On the line \<open>say |hi| now\<close> with the bar as both delimiters, level 3 selects the same
  \<open>|hi|\<close> as level 0.
\<close>

theorem select_surrounding_level_independent_witness:
  "select_surrounding [''say |hi| now\<newline>'']
     (make_selection \<lparr>line = 0, column = 5\<rparr> \<lparr>line = 0, column = 5\<rparr>) ''|'' ''|'' 3
     (flags_or ToBegin ToEnd)
   = Some (Some (make_selection \<lparr>line = 0, column = 4\<rparr> \<lparr>line = 0, column = 7\<rparr>))"
proof -
  let ?b = "[''say |hi| now\<newline>'']"
  let ?s = "make_selection \<lparr>line = 0, column = 5\<rparr> \<lparr>line = 0, column = 5\<rparr>"
  have "select_surrounding ?b ?s ''|'' ''|'' 0 (flags_or ToBegin ToEnd)
          = Some (Some (make_selection \<lparr>line = 0, column = 4\<rparr> \<lparr>line = 0, column = 7\<rparr>))"
    by code_simp
  with select_surrounding_level_independent
         [of _ _ _ "''|''" "''|''" _ _ _ "flags_or ToBegin ToEnd" 3 0 ?b ?s]
  show ?thesis by simp
qed

section \<open>Whole-line selections\<close>

lemma column_update_same: "column a = v \<Longrightarrow> a\<lparr>column := v\<rparr> = a"
  by (cases a) simp

lemma coord_le_not_less: "coord_le a b \<Longrightarrow> \<not> coord_less b a"
  by (auto simp: coord_le_def coord_less_def)

lemma coord_not_le_not_less: "\<not> coord_le a b \<Longrightarrow> \<not> coord_less a b"
  by (auto simp: coord_le_def coord_less_def)

lemma selection_rebuilt:
  "\<lparr>anchor = anchor s, cursor = cursor s, target = Some INT_MAX, captures = []\<rparr>
     = s\<lparr>target := Some INT_MAX, captures := []\<rparr>"
  by (cases s) simp

lemma line_length_pos:
  assumes "\<forall>l\<in>set b. l \<noteq> []" and "line_length b l = Some len"
  shows "0 < len"
proof -
  from assms(2) have r: "0 \<le> l" "l < int (length b)" and len: "len = int (length (b ! nat l))"
    by (simp_all add: line_length_def split: if_splits)
  from r have "b ! nat l \<in> set b" by simp
  with assms(1) have "b ! nat l \<noteq> []" by blast
  with len show ?thesis by simp
qed

lemma select_lines_forward:
  assumes "coord_le (anchor s0) (cursor s0)" and "select_lines b s0 = Some (Some s)"
  shows "\<exists>len. line_length b (line (cursor s0)) = Some len
           \<and> s = \<lparr>anchor = (anchor s0)\<lparr>column := 0\<rparr>, cursor = (cursor s0)\<lparr>column := len - 1\<rparr>,
                  target = Some INT_MAX, captures = []\<rparr>"
  using assms
  by (auto simp add: select_lines_def Let_def target_eol_def make_selection_def
      split: option.splits)

lemma select_lines_backward:
  assumes "\<not> coord_le (anchor s0) (cursor s0)" and "select_lines b s0 = Some (Some s)"
  shows "\<exists>len. line_length b (line (anchor s0)) = Some len
           \<and> s = \<lparr>anchor = (anchor s0)\<lparr>column := len - 1\<rparr>, cursor = (cursor s0)\<lparr>column := 0\<rparr>,
                  target = Some INT_MAX, captures = []\<rparr>"
  using assms
  by (auto simp add: select_lines_def Let_def target_eol_def make_selection_def
      split: option.splits)

text \<open>
  What \<open>select_lines\<close> returns is a whole-line selection, with the end-of-line target
  and no captures, in a buffer whose lines all hold at least their newline.
\<close>

lemma select_lines_whole_lines:
  assumes "select_lines b s0 = Some (Some s)" and "\<forall>l\<in>set b. l \<noteq> []"
  shows "column (sel_min s) = 0
     \<and> (\<exists>len. line_length b (line (sel_max s)) = Some len \<and> column (sel_max s) = len - 1)
     \<and> target s = Some INT_MAX \<and> captures s = []"
proof (cases "coord_le (anchor s0) (cursor s0)")
  case True
  from select_lines_forward [OF True assms(1)] obtain len
    where l: "line_length b (line (cursor s0)) = Some len"
      and s: "s = \<lparr>anchor = (anchor s0)\<lparr>column := 0\<rparr>, cursor = (cursor s0)\<lparr>column := len - 1\<rparr>,
                  target = Some INT_MAX, captures = []\<rparr>"
    by blast
  from line_length_pos [OF assms(2) l] have pos: "0 < len" .
  from True pos have le: "coord_le (anchor s) (cursor s)"
    by (auto simp add: s coord_le_def)
  from le l show ?thesis by (simp add: sel_min_def sel_max_def s)
next
  case False
  from select_lines_backward [OF False assms(1)] obtain len
    where l: "line_length b (line (anchor s0)) = Some len"
      and s: "s = \<lparr>anchor = (anchor s0)\<lparr>column := len - 1\<rparr>, cursor = (cursor s0)\<lparr>column := 0\<rparr>,
                  target = Some INT_MAX, captures = []\<rparr>"
    by blast
  from line_length_pos [OF assms(2) l] have pos: "0 < len" .
  show ?thesis
  proof (cases "coord_le (anchor s) (cursor s)")
    case le: True
    with False pos have "line (anchor s0) = line (cursor s0)" "len = 1"
      by (auto simp add: s coord_le_def)
    with le l show ?thesis by (simp add: sel_min_def sel_max_def s)
  next
    case nle: False
    with l show ?thesis by (simp add: sel_min_def sel_max_def s)
  qed
qed

lemma whole_lines_kept:
  assumes "column (sel_min s) = 0"
    and "line_length b (line (sel_max s)) = Some len"
    and "column (sel_max s) = len - 1"
  shows "select_lines b s = Some (Some (s\<lparr>target := Some INT_MAX, captures := []\<rparr>))"
    and "trim_partial_lines b (s\<lparr>target := Some INT_MAX, captures := []\<rparr>)
         = Some (Some (s\<lparr>target := Some INT_MAX, captures := []\<rparr>))"
proof -
  have "select_lines b s = Some (Some (s\<lparr>target := Some INT_MAX, captures := []\<rparr>))
     \<and> trim_partial_lines b (s\<lparr>target := Some INT_MAX, captures := []\<rparr>)
         = Some (Some (s\<lparr>target := Some INT_MAX, captures := []\<rparr>))"
  proof (cases "coord_le (anchor s) (cursor s)")
    case True
    with assms have a: "column (anchor s) = 0"
      and l: "line_length b (line (cursor s)) = Some len"
      and c: "column (cursor s) = len - 1"
      by (simp_all add: sel_min_def sel_max_def)
    from True a l c
    have 1: "select_lines b s = Some (Some (s\<lparr>target := Some INT_MAX, captures := []\<rparr>))"
      by (simp add: select_lines_def column_update_same target_eol_def make_selection_def
          selection_rebuilt)
    from True a l c
    have 2: "trim_partial_lines b (s\<lparr>target := Some INT_MAX, captures := []\<rparr>)
           = Some (Some (s\<lparr>target := Some INT_MAX, captures := []\<rparr>))"
      by (simp add: trim_partial_lines_def trim_finish_def coord_le_not_less target_eol_def
          make_selection_def selection_rebuilt)
    from 1 2 show ?thesis by simp
  next
    case False
    with assms have a: "column (cursor s) = 0"
      and l: "line_length b (line (anchor s)) = Some len"
      and c: "column (anchor s) = len - 1"
      by (simp_all add: sel_min_def sel_max_def)
    from False a l c
    have 1: "select_lines b s = Some (Some (s\<lparr>target := Some INT_MAX, captures := []\<rparr>))"
      by (simp add: select_lines_def column_update_same target_eol_def make_selection_def
          selection_rebuilt)
    from False a l c
    have 2: "trim_partial_lines b (s\<lparr>target := Some INT_MAX, captures := []\<rparr>)
           = Some (Some (s\<lparr>target := Some INT_MAX, captures := []\<rparr>))"
      by (simp add: trim_partial_lines_def trim_finish_def coord_not_le_not_less target_eol_def
          make_selection_def selection_rebuilt)
    from 1 2 show ?thesis by simp
  qed
  then show "select_lines b s = Some (Some (s\<lparr>target := Some INT_MAX, captures := []\<rparr>))"
    and "trim_partial_lines b (s\<lparr>target := Some INT_MAX, captures := []\<rparr>)
         = Some (Some (s\<lparr>target := Some INT_MAX, captures := []\<rparr>))"
    by simp_all
qed

text \<open>
  Claim C5.  \<open>select_lines\<close> followed by \<open>trim_partial_lines\<close> is the identity on
  whole-line selections.  (1) On every selection \<open>s\<close> that \<open>select_lines\<close> has produced,
  in a buffer whose lines all hold at least their newline, \<open>select_lines\<close> returns \<open>s\<close>
  and \<open>trim_partial_lines\<close> returns \<open>s\<close> again: the same selection, field for field.
  (2) On every selection whose min is at column 0 and whose max is at the last column
  of its line, wherever it comes from, \<open>select_lines\<close> returns the selection with the
  same anchor and the same cursor (so the same min, max and direction) and
  \<open>trim_partial_lines\<close> returns that selection unchanged; the two fields that are not
  coordinates are those every result of \<open>select_lines\<close> has, the end-of-line target and
  no captures.
\<close>

theorem select_lines_then_trim_partial_lines:
  "((\<forall>l\<in>set b. l \<noteq> []) \<longrightarrow> select_lines b s0 = Some (Some s) \<longrightarrow>
       select_lines b s = Some (Some s) \<and> trim_partial_lines b s = Some (Some s))
   \<and> (column (sel_min s) = 0 \<longrightarrow> line_length b (line (sel_max s)) = Some len \<longrightarrow>
        column (sel_max s) = len - 1 \<longrightarrow>
          select_lines b s = Some (Some (s\<lparr>target := Some INT_MAX, captures := []\<rparr>))
          \<and> trim_partial_lines b (s\<lparr>target := Some INT_MAX, captures := []\<rparr>)
              = Some (Some (s\<lparr>target := Some INT_MAX, captures := []\<rparr>))
          \<and> anchor (s\<lparr>target := Some INT_MAX, captures := []\<rparr>) = anchor s
          \<and> cursor (s\<lparr>target := Some INT_MAX, captures := []\<rparr>) = cursor s)"
proof (intro conjI impI)
  assume ne: "\<forall>l\<in>set b. l \<noteq> []" and out: "select_lines b s0 = Some (Some s)"
  from select_lines_whole_lines [OF out ne] obtain len'
    where h: "column (sel_min s) = 0" "line_length b (line (sel_max s)) = Some len'"
      "column (sel_max s) = len' - 1"
      and t: "target s = Some INT_MAX" and c: "captures s = []"
    by blast
  from t c have same: "s\<lparr>target := Some INT_MAX, captures := []\<rparr> = s"
    by (cases s) simp
  from whole_lines_kept [OF h] same
  show "select_lines b s = Some (Some s)" and "trim_partial_lines b s = Some (Some s)"
    by simp_all
next
  assume h: "column (sel_min s) = 0" "line_length b (line (sel_max s)) = Some len"
    "column (sel_max s) = len - 1"
  from whole_lines_kept [OF h]
  show "select_lines b s = Some (Some (s\<lparr>target := Some INT_MAX, captures := []\<rparr>))"
    and "trim_partial_lines b (s\<lparr>target := Some INT_MAX, captures := []\<rparr>)
              = Some (Some (s\<lparr>target := Some INT_MAX, captures := []\<rparr>))"
    by simp_all
next
  show "anchor (s\<lparr>target := Some INT_MAX, captures := []\<rparr>) = anchor s" by simp
next
  show "cursor (s\<lparr>target := Some INT_MAX, captures := []\<rparr>) = cursor s" by simp
qed

text \<open>
  In the buffer of the two lines \<open>ab\<close> and \<open>cde\<close>.  \<open>select_lines\<close> turns the selection
  from (0,1) to (1,1) into the two whole lines, and the two selectors then leave that
  selection as it is.  The backward selection of the two lines, anchor at the end of the
  second and cursor at the start of the first, comes back as it is.  The first line
  selected with no target and the capture \<open>ab\<close> comes back with the same anchor and
  cursor, the end-of-line target and no capture.
\<close>

theorem select_lines_then_trim_partial_lines_witness:
  "select_lines [''ab\<newline>'', ''cde\<newline>'']
     (make_selection \<lparr>line = 0, column = 1\<rparr> \<lparr>line = 1, column = 1\<rparr>)
   = Some (Some \<lparr>anchor = \<lparr>line = 0, column = 0\<rparr>, cursor = \<lparr>line = 1, column = 3\<rparr>,
                 target = Some INT_MAX, captures = []\<rparr>)
   \<and> select_lines [''ab\<newline>'', ''cde\<newline>'']
     \<lparr>anchor = \<lparr>line = 0, column = 0\<rparr>, cursor = \<lparr>line = 1, column = 3\<rparr>,
      target = Some INT_MAX, captures = []\<rparr>
   = Some (Some \<lparr>anchor = \<lparr>line = 0, column = 0\<rparr>, cursor = \<lparr>line = 1, column = 3\<rparr>,
                 target = Some INT_MAX, captures = []\<rparr>)
   \<and> trim_partial_lines [''ab\<newline>'', ''cde\<newline>'']
     \<lparr>anchor = \<lparr>line = 0, column = 0\<rparr>, cursor = \<lparr>line = 1, column = 3\<rparr>,
      target = Some INT_MAX, captures = []\<rparr>
   = Some (Some \<lparr>anchor = \<lparr>line = 0, column = 0\<rparr>, cursor = \<lparr>line = 1, column = 3\<rparr>,
                 target = Some INT_MAX, captures = []\<rparr>)
   \<and> select_lines [''ab\<newline>'', ''cde\<newline>'']
     \<lparr>anchor = \<lparr>line = 1, column = 3\<rparr>, cursor = \<lparr>line = 0, column = 0\<rparr>,
      target = Some INT_MAX, captures = []\<rparr>
   = Some (Some \<lparr>anchor = \<lparr>line = 1, column = 3\<rparr>, cursor = \<lparr>line = 0, column = 0\<rparr>,
                 target = Some INT_MAX, captures = []\<rparr>)
   \<and> trim_partial_lines [''ab\<newline>'', ''cde\<newline>'']
     \<lparr>anchor = \<lparr>line = 1, column = 3\<rparr>, cursor = \<lparr>line = 0, column = 0\<rparr>,
      target = Some INT_MAX, captures = []\<rparr>
   = Some (Some \<lparr>anchor = \<lparr>line = 1, column = 3\<rparr>, cursor = \<lparr>line = 0, column = 0\<rparr>,
                 target = Some INT_MAX, captures = []\<rparr>)
   \<and> select_lines [''ab\<newline>'', ''cde\<newline>'']
     \<lparr>anchor = \<lparr>line = 0, column = 0\<rparr>, cursor = \<lparr>line = 0, column = 2\<rparr>,
      target = None, captures = [''ab'']\<rparr>
   = Some (Some \<lparr>anchor = \<lparr>line = 0, column = 0\<rparr>, cursor = \<lparr>line = 0, column = 2\<rparr>,
                 target = Some INT_MAX, captures = []\<rparr>)
   \<and> trim_partial_lines [''ab\<newline>'', ''cde\<newline>'']
     \<lparr>anchor = \<lparr>line = 0, column = 0\<rparr>, cursor = \<lparr>line = 0, column = 2\<rparr>,
      target = Some INT_MAX, captures = []\<rparr>
   = Some (Some \<lparr>anchor = \<lparr>line = 0, column = 0\<rparr>, cursor = \<lparr>line = 0, column = 2\<rparr>,
                 target = Some INT_MAX, captures = []\<rparr>)"
proof -
  let ?b = "[''ab\<newline>'', ''cde\<newline>'']"
  let ?p = "make_selection \<lparr>line = 0, column = 1\<rparr> \<lparr>line = 1, column = 1\<rparr>"
  let ?s = "\<lparr>anchor = \<lparr>line = 0, column = 0\<rparr>, cursor = \<lparr>line = 1, column = 3\<rparr>,
             target = Some INT_MAX, captures = []\<rparr>"
  let ?t = "\<lparr>anchor = \<lparr>line = 1, column = 3\<rparr>, cursor = \<lparr>line = 0, column = 0\<rparr>,
             target = Some INT_MAX, captures = []\<rparr>"
  let ?u = "\<lparr>anchor = \<lparr>line = 0, column = 0\<rparr>, cursor = \<lparr>line = 0, column = 2\<rparr>,
             target = None, captures = [''ab'']\<rparr>"
  have ne: "\<forall>l\<in>set ?b. l \<noteq> []" by simp
  have out: "select_lines ?b ?p = Some (Some ?s)"
    by (simp add: select_lines_def make_selection_def coord_le_def line_length_def
        target_eol_def)
  from select_lines_then_trim_partial_lines [of ?b ?p ?s, THEN conjunct1] ne out
  have p1: "select_lines ?b ?s = Some (Some ?s) \<and> trim_partial_lines ?b ?s = Some (Some ?s)"
    by blast
  have tmn: "sel_min ?t = \<lparr>line = 0, column = 0\<rparr>" and tmx: "sel_max ?t = \<lparr>line = 1, column = 3\<rparr>"
    by (simp_all add: sel_min_def sel_max_def coord_le_def)
  have t1: "column (sel_min ?t) = 0" by (simp add: tmn)
  have t2: "line_length ?b (line (sel_max ?t)) = Some 4" by (simp add: tmx line_length_def)
  have t3: "column (sel_max ?t) = 4 - 1" by (simp add: tmx)
  from select_lines_then_trim_partial_lines [of ?b _ ?t 4, THEN conjunct2] t1 t2 t3
  have p2: "select_lines ?b ?t = Some (Some ?t) \<and> trim_partial_lines ?b ?t = Some (Some ?t)"
    by simp
  have umn: "sel_min ?u = \<lparr>line = 0, column = 0\<rparr>" and umx: "sel_max ?u = \<lparr>line = 0, column = 2\<rparr>"
    by (simp_all add: sel_min_def sel_max_def coord_le_def)
  have u1: "column (sel_min ?u) = 0" by (simp add: umn)
  have u2: "line_length ?b (line (sel_max ?u)) = Some 3" by (simp add: umx line_length_def)
  have u3: "column (sel_max ?u) = 3 - 1" by (simp add: umx)
  from select_lines_then_trim_partial_lines [of ?b _ ?u 3, THEN conjunct2] u1 u2 u3
  have p3: "select_lines ?b ?u
              = Some (Some \<lparr>anchor = \<lparr>line = 0, column = 0\<rparr>, cursor = \<lparr>line = 0, column = 2\<rparr>,
                            target = Some INT_MAX, captures = []\<rparr>)
            \<and> trim_partial_lines ?b
                \<lparr>anchor = \<lparr>line = 0, column = 0\<rparr>, cursor = \<lparr>line = 0, column = 2\<rparr>,
                 target = Some INT_MAX, captures = []\<rparr>
              = Some (Some \<lparr>anchor = \<lparr>line = 0, column = 0\<rparr>, cursor = \<lparr>line = 0, column = 2\<rparr>,
                            target = Some INT_MAX, captures = []\<rparr>)"
    by simp
  from out p1 p2 p3 show ?thesis by blast
qed

section \<open>Direction and validity of the object selectors\<close>

text \<open>
  Claim C3 says that an object selector called with \<^verbatim>\<open>ToEnd\<close> returns a selection with
  anchor \<open>\<le>\<close> cursor, and one called with \<^verbatim>\<open>ToBegin\<close> alone a selection with cursor
  \<open>\<le>\<close> anchor.  Two selectors break it.  In the buffer of the four lines \<open>a\<close>, empty,
  empty, \<open>b\<close>, with the cursor on the first empty line, \<open>select_sentence\<close> with
  \<^verbatim>\<open>ToBegin|ToEnd\<close> returns the anchor on line 2 and the cursor on line 1.  On the line
  \<open>f(a,,b)\<close>, with the cursor on the second comma, \<open>select_argument\<close> returns the anchor at
  column 4 and the cursor at column 3 with \<^verbatim>\<open>ToBegin|ToEnd\<close>, and the anchor at column 3
  and the cursor at column 4 with \<^verbatim>\<open>ToBegin\<close> alone.
\<close>

theorem object_selectors_lose_direction:
  "select_sentence [''a\<newline>'', ''\<newline>'', ''\<newline>'', ''b\<newline>'']
     (make_selection \<lparr>line = 1, column = 0\<rparr> \<lparr>line = 1, column = 0\<rparr>) 0
     (flags_or ToBegin ToEnd)
     = Some (Some (make_selection \<lparr>line = 2, column = 0\<rparr> \<lparr>line = 1, column = 0\<rparr>))
   \<and> coord_less \<lparr>line = 1, column = 0\<rparr> \<lparr>line = 2, column = 0\<rparr>
   \<and> select_argument [''f(a,,b)\<newline>'']
     (make_selection \<lparr>line = 0, column = 4\<rparr> \<lparr>line = 0, column = 4\<rparr>) 0
     (flags_or ToBegin ToEnd)
     = Some (Some (make_selection \<lparr>line = 0, column = 4\<rparr> \<lparr>line = 0, column = 3\<rparr>))
   \<and> select_argument [''f(a,,b)\<newline>'']
     (make_selection \<lparr>line = 0, column = 4\<rparr> \<lparr>line = 0, column = 4\<rparr>) 0 ToBegin
     = Some (Some (make_selection \<lparr>line = 0, column = 3\<rparr> \<lparr>line = 0, column = 4\<rparr>))
   \<and> coord_less \<lparr>line = 0, column = 3\<rparr> \<lparr>line = 0, column = 4\<rparr>"
  by code_simp

text \<open>
  Claim C4 says that every selection a selector returns has valid coordinates.  In the
  buffer of the two lines \<open>a\<close> and empty, with the cursor on the empty line (a valid
  coordinate), \<open>select_sentence\<close> with \<^verbatim>\<open>ToBegin\<close> returns a cursor that is the coordinate
  of the end iterator, one past the last byte of the buffer: it is not a valid
  coordinate.
\<close>

theorem select_sentence_returns_end_coord:
  "valid_coord [''a\<newline>'', ''\<newline>''] \<lparr>line = 1, column = 0\<rparr>
   \<and> select_sentence [''a\<newline>'', ''\<newline>'']
     (make_selection \<lparr>line = 1, column = 0\<rparr> \<lparr>line = 1, column = 0\<rparr>) 0 ToBegin
     = Some (Some (make_selection \<lparr>line = 1, column = 0\<rparr>
                     (end_coord [''a\<newline>'', ''\<newline>''])))
   \<and> sel_max (make_selection \<lparr>line = 1, column = 0\<rparr> (end_coord [''a\<newline>'', ''\<newline>'']))
     = end_coord [''a\<newline>'', ''\<newline>'']
   \<and> \<not> valid_coord [''a\<newline>'', ''\<newline>''] (end_coord [''a\<newline>'', ''\<newline>''])"
  by code_simp

section \<open>Errors of the regex-driven list operations\<close>

text \<open>
  Claim C8.  \<open>select_all_matches\<close> and \<open>split_selections\<close> throw
  \<open>invalid capture number\<close> exactly when the capture index is negative or greater than
  the mark count of the regex; they throw \<open>nothing selected\<close> exactly when the capture
  index is valid and the vector of resulting selections is empty; and otherwise they
  throw nothing and replace the selections by that vector.
\<close>

theorem regex_list_operations_errors:
  "(fst (select_all_matches eng sels regex capture)
      = Some (runtime_error ''invalid capture number'')
    \<longleftrightarrow> capture < 0 \<or> capture > int (mark_count regex))
   \<and> (fst (select_all_matches eng sels regex capture)
      = Some (runtime_error ''nothing selected'')
    \<longleftrightarrow> 0 \<le> capture \<and> capture \<le> int (mark_count regex)
        \<and> all_matches_result eng sels regex (nat capture) = [])
   \<and> (0 \<le> capture \<and> capture \<le> int (mark_count regex)
        \<and> all_matches_result eng sels regex (nat capture) \<noteq> []
      \<longrightarrow> select_all_matches eng sels regex capture
          = (None, sels\<lparr>selections_of := all_matches_result eng sels regex (nat capture)\<rparr>))
   \<and> (fst (split_selections eng sels regex capture)
      = Some (runtime_error ''invalid capture number'')
    \<longleftrightarrow> capture < 0 \<or> capture > int (mark_count regex))
   \<and> (fst (split_selections eng sels regex capture)
      = Some (runtime_error ''nothing selected'')
    \<longleftrightarrow> 0 \<le> capture \<and> capture \<le> int (mark_count regex)
        \<and> split_result eng sels regex (nat capture) = [])
   \<and> (0 \<le> capture \<and> capture \<le> int (mark_count regex)
        \<and> split_result eng sels regex (nat capture) \<noteq> []
      \<longrightarrow> split_selections eng sels regex capture
          = (None, sels\<lparr>selections_of := split_result eng sels regex (nat capture)\<rparr>))"
proof -
  have 1: "fst (select_all_matches eng sels regex capture)
      = Some (runtime_error ''invalid capture number'')
    \<longleftrightarrow> capture < 0 \<or> capture > int (mark_count regex)"
    by (simp add: select_all_matches_def Let_def)
  have 2: "fst (select_all_matches eng sels regex capture)
      = Some (runtime_error ''nothing selected'')
    \<longleftrightarrow> 0 \<le> capture \<and> capture \<le> int (mark_count regex)
        \<and> all_matches_result eng sels regex (nat capture) = []"
    by (auto simp add: select_all_matches_def Let_def)
  have 3: "0 \<le> capture \<and> capture \<le> int (mark_count regex)
        \<and> all_matches_result eng sels regex (nat capture) \<noteq> []
      \<longrightarrow> select_all_matches eng sels regex capture
          = (None, sels\<lparr>selections_of := all_matches_result eng sels regex (nat capture)\<rparr>)"
    by (simp add: select_all_matches_def Let_def)
  have 4: "fst (split_selections eng sels regex capture)
      = Some (runtime_error ''invalid capture number'')
    \<longleftrightarrow> capture < 0 \<or> capture > int (mark_count regex)"
    by (simp add: split_selections_def Let_def)
  have 5: "fst (split_selections eng sels regex capture)
      = Some (runtime_error ''nothing selected'')
    \<longleftrightarrow> 0 \<le> capture \<and> capture \<le> int (mark_count regex)
        \<and> split_result eng sels regex (nat capture) = []"
    by (auto simp add: split_selections_def Let_def)
  have 6: "0 \<le> capture \<and> capture \<le> int (mark_count regex)
        \<and> split_result eng sels regex (nat capture) \<noteq> []
      \<longrightarrow> split_selections eng sels regex capture
          = (None, sels\<lparr>selections_of := split_result eng sels regex (nat capture)\<rparr>)"
    by (simp add: split_selections_def Let_def)
  from 1 2 3 4 5 6 show ?thesis by blast
qed

text \<open>
  On the line \<open>a,b,,c\<close> selected up to the \<open>c\<close>, with the comma as pattern and capture 0:
  \<open>select_all_matches\<close> selects the three commas and \<open>split_selections\<close> the four pieces.
\<close>

theorem regex_list_operations_errors_witness:
  "select_all_matches single_byte_engine
     \<lparr>buffer_of = [''a,b,,c\<newline>''],
      selections_of = [make_selection \<lparr>line = 0, column = 0\<rparr> \<lparr>line = 0, column = 5\<rparr>]\<rparr>
     \<lparr>str = '','', mark_count = 0\<rparr> 0
   = (None,
      \<lparr>buffer_of = [''a,b,,c\<newline>''],
       selections_of =
         [\<lparr>anchor = \<lparr>line = 0, column = 1\<rparr>, cursor = \<lparr>line = 0, column = 1\<rparr>,
           target = None, captures = ['','']\<rparr>,
          \<lparr>anchor = \<lparr>line = 0, column = 3\<rparr>, cursor = \<lparr>line = 0, column = 3\<rparr>,
           target = None, captures = ['','']\<rparr>,
          \<lparr>anchor = \<lparr>line = 0, column = 4\<rparr>, cursor = \<lparr>line = 0, column = 4\<rparr>,
           target = None, captures = ['','']\<rparr>]\<rparr>)
   \<and> length (selections_of (snd (split_selections single_byte_engine
     \<lparr>buffer_of = [''a,b,,c\<newline>''],
      selections_of = [make_selection \<lparr>line = 0, column = 0\<rparr> \<lparr>line = 0, column = 5\<rparr>]\<rparr>
     \<lparr>str = '','', mark_count = 0\<rparr> 0))) = 4"
proof -
  let ?sels = "\<lparr>buffer_of = [''a,b,,c\<newline>''],
      selections_of = [make_selection \<lparr>line = 0, column = 0\<rparr> \<lparr>line = 0, column = 5\<rparr>]\<rparr>"
  let ?re = "\<lparr>str = '','', mark_count = 0\<rparr>"
  have a: "all_matches_result single_byte_engine ?sels ?re (nat 0)
     = [\<lparr>anchor = \<lparr>line = 0, column = 1\<rparr>, cursor = \<lparr>line = 0, column = 1\<rparr>,
           target = None, captures = ['','']\<rparr>,
          \<lparr>anchor = \<lparr>line = 0, column = 3\<rparr>, cursor = \<lparr>line = 0, column = 3\<rparr>,
           target = None, captures = ['','']\<rparr>,
          \<lparr>anchor = \<lparr>line = 0, column = 4\<rparr>, cursor = \<lparr>line = 0, column = 4\<rparr>,
           target = None, captures = ['','']\<rparr>]"
    by code_simp
  have b: "length (split_result single_byte_engine ?sels ?re (nat 0)) = 4"
    by code_simp
  then have b': "split_result single_byte_engine ?sels ?re (nat 0) \<noteq> []"
    by auto
  have c: "(0::int) \<le> 0 \<and> 0 \<le> int (mark_count ?re)" by simp
  from regex_list_operations_errors [of single_byte_engine ?sels ?re 0] a b b' c
  show ?thesis by simp
qed

text \<open>
  Claim C9.  When \<open>select_all_matches\<close> or \<open>split_selections\<close> throws, the selection list
  is as it was before the call.
\<close>

theorem regex_list_operations_atomic:
  "(fst (select_all_matches eng sels regex capture) \<noteq> None
      \<longrightarrow> snd (select_all_matches eng sels regex capture) = sels)
   \<and> (fst (split_selections eng sels regex capture) \<noteq> None
      \<longrightarrow> snd (split_selections eng sels regex capture) = sels)"
  by (simp add: select_all_matches_def split_selections_def Let_def)

text \<open>
  With the pattern \<open>x\<close>, which the line \<open>a,b,,c\<close> does not hold, both operations throw
  \<open>nothing selected\<close>, and with capture 1 on a regex without captures both throw
  \<open>invalid capture number\<close>; the selection list they leave is the one they were given.
\<close>

theorem regex_list_operations_atomic_witness:
  "select_all_matches single_byte_engine
     \<lparr>buffer_of = [''a,b,,c\<newline>''],
      selections_of = [make_selection \<lparr>line = 0, column = 0\<rparr> \<lparr>line = 0, column = 5\<rparr>]\<rparr>
     \<lparr>str = ''x'', mark_count = 0\<rparr> 0
   = (Some (runtime_error ''nothing selected''),
      \<lparr>buffer_of = [''a,b,,c\<newline>''],
       selections_of = [make_selection \<lparr>line = 0, column = 0\<rparr> \<lparr>line = 0, column = 5\<rparr>]\<rparr>)
   \<and> split_selections single_byte_engine
     \<lparr>buffer_of = [''a,b,,c\<newline>''],
      selections_of = [make_selection \<lparr>line = 0, column = 0\<rparr> \<lparr>line = 0, column = 5\<rparr>]\<rparr>
     \<lparr>str = ''x'', mark_count = 0\<rparr> 1
   = (Some (runtime_error ''invalid capture number''),
      \<lparr>buffer_of = [''a,b,,c\<newline>''],
       selections_of = [make_selection \<lparr>line = 0, column = 0\<rparr> \<lparr>line = 0, column = 5\<rparr>]\<rparr>)"
proof -
  let ?sels = "\<lparr>buffer_of = [''a,b,,c\<newline>''],
      selections_of = [make_selection \<lparr>line = 0, column = 0\<rparr> \<lparr>line = 0, column = 5\<rparr>]\<rparr>"
  let ?re = "\<lparr>str = ''x'', mark_count = 0\<rparr>"
  have a: "fst (select_all_matches single_byte_engine ?sels ?re 0)
             = Some (runtime_error ''nothing selected'')"
    by code_simp
  have b: "fst (split_selections single_byte_engine ?sels ?re 1)
             = Some (runtime_error ''invalid capture number'')"
    by code_simp
  from regex_list_operations_atomic [of single_byte_engine ?sels ?re 0] a
  have a': "snd (select_all_matches single_byte_engine ?sels ?re 0) = ?sels"
    by simp
  from regex_list_operations_atomic [of single_byte_engine ?sels ?re 1] b
  have b': "snd (split_selections single_byte_engine ?sels ?re 1) = ?sels"
    by simp
  from a a' b b' show ?thesis
    by (metis prod.collapse)
qed

section \<open>The matching bracket, as specified\<close>

text \<open>The loops of the source compute these.\<close>

lemma find_map: "find P (map f xs) = map_option f (find (\<lambda>x. P (f x)) xs)"
  by (induction xs) auto

lemma find_upt_Suc:
  "find P [0..<Suc n] = (if P 0 then Some 0 else map_option Suc (find (\<lambda>k. P (Suc k)) [0..<n]))"
proof -
  have "[0..<Suc n] = 0 # map Suc [0..<n]"
    by (simp add: upt_conv_Cons map_Suc_upt del: upt_Suc)
  then show ?thesis by (simp add: find_map del: upt_Suc)
qed

lemma balanced_at_Cons_0:
  "balanced_at bs up down level (p # ps) 0
     = (utf8_codepoint bs p = down \<and> level + nesting up down [utf8_codepoint bs p] = 0)"
  by (simp add: balanced_at_def)

lemma balanced_at_Cons_Suc:
  "balanced_at bs up down level (p # ps) (Suc k)
     = balanced_at bs up down (level + nesting up down [utf8_codepoint bs p]) ps k"
  by (auto simp add: balanced_at_def nesting_def)

lemma first_balanced_Nil: "first_balanced bs up down level [] = None"
  by (simp add: first_balanced_def)

lemma first_balanced_Cons:
  "first_balanced bs up down level (p # ps)
     = (if utf8_codepoint bs p = down \<and> level + nesting up down [utf8_codepoint bs p] = 0
        then Some p
        else first_balanced bs up down (level + nesting up down [utf8_codepoint bs p]) ps)"
  by (auto simp add: first_balanced_def find_upt_Suc balanced_at_Cons_0 balanced_at_Cons_Suc
      option.map_comp comp_def simp del: upt_Suc)

lemma matching_forward_first_balanced:
  "opn \<noteq> cls \<Longrightarrow>
   matching_forward bs opn cls it level = first_balanced bs opn cls level (cp_positions bs it)"
proof (induction bs opn cls it level rule: matching_forward.induct)
  case (1 bs opn cls it level)
  show ?case
  proof (cases "length bs \<le> it")
    case True
    then show ?thesis
      by (simp add: matching_forward.simps [of bs opn cls it level]
          cp_positions.simps [of bs it] first_balanced_Nil)
  next
    case False
    let ?c = "utf8_codepoint bs it"
    let ?n = "utf8_next bs it (length bs)"
    from False have pos: "cp_positions bs it = it # cp_positions bs ?n"
      by (simp add: cp_positions.simps [of bs it])
    show ?thesis
    proof (cases "?c = opn")
      case True
      with False have "matching_forward bs opn cls it level
          = matching_forward bs opn cls ?n (level + 1)"
        by (simp add: matching_forward.simps [of bs opn cls it level])
      also have "\<dots> = first_balanced bs opn cls (level + 1) (cp_positions bs ?n)"
        using 1(1) [OF False refl True] 1(3) by simp
      also have "\<dots> = first_balanced bs opn cls level (cp_positions bs it)"
        using True 1(3) by (simp add: pos first_balanced_Cons nesting_def)
      finally show ?thesis .
    next
      case notopen: False
      show ?thesis
      proof (cases "?c = cls \<and> level - 1 = 0")
        case True
        with False notopen have "matching_forward bs opn cls it level = Some it"
          by (subst matching_forward.simps) simp
        also have "\<dots> = first_balanced bs opn cls level (cp_positions bs it)"
          using True notopen 1(3) by (simp add: pos first_balanced_Cons nesting_def)
        finally show ?thesis .
      next
        case notdone: False
        let ?l = "if ?c = cls then level - 1 else level"
        from False notopen notdone have "matching_forward bs opn cls it level
            = matching_forward bs opn cls ?n ?l"
          by (subst matching_forward.simps) (auto simp add: Let_def)
        also have "\<dots> = first_balanced bs opn cls ?l (cp_positions bs ?n)"
          using 1(2) [OF False refl notopen notdone] 1(3) by simp
        also have "\<dots> = first_balanced bs opn cls level (cp_positions bs it)"
          using notopen notdone 1(3) by (auto simp add: pos first_balanced_Cons nesting_def)
        finally show ?thesis .
      qed
    qed
  qed
qed

lemma matching_backward_first_balanced:
  "opn \<noteq> cls \<Longrightarrow>
   matching_backward bs opn cls it level
     = first_balanced bs cls opn level (cp_positions_back bs it)"
proof (induction bs opn cls it level rule: matching_backward.induct)
  case (1 bs opn cls it level)
  let ?c = "utf8_codepoint bs it"
  let ?p = "utf8_previous bs it 0"
  show ?case
  proof (cases "it = 0")
    case True
    have pos: "cp_positions_back bs 0 = [0]"
      by (subst cp_positions_back.simps) simp
    from 1(3) show ?thesis
      unfolding True
      by (subst matching_backward.simps)
         (auto simp add: pos first_balanced_Cons first_balanced_Nil nesting_def Let_def)
  next
    case False
    then have pos: "cp_positions_back bs it = it # cp_positions_back bs ?p"
      by (simp add: cp_positions_back.simps [of bs it])
    show ?thesis
    proof (cases "?c = cls")
      case True
      with False have "matching_backward bs opn cls it level
          = matching_backward bs opn cls ?p (level + 1)"
        by (subst matching_backward.simps) simp
      also have "\<dots> = first_balanced bs cls opn (level + 1) (cp_positions_back bs ?p)"
        using 1(1) [OF refl True False] 1(3) by simp
      also have "\<dots> = first_balanced bs cls opn level (cp_positions_back bs it)"
        using True 1(3) by (simp add: pos first_balanced_Cons nesting_def)
      finally show ?thesis .
    next
      case notclose: False
      show ?thesis
      proof (cases "?c = opn \<and> level - 1 = 0")
        case True
        with notclose have "matching_backward bs opn cls it level = Some it"
          by (subst matching_backward.simps) simp
        also have "\<dots> = first_balanced bs cls opn level (cp_positions_back bs it)"
          using True notclose 1(3) by (simp add: pos first_balanced_Cons nesting_def)
        finally show ?thesis .
      next
        case notdone: False
        let ?l = "if ?c = opn then level - 1 else level"
        from False notclose notdone have "matching_backward bs opn cls it level
            = matching_backward bs opn cls ?p ?l"
          by (subst matching_backward.simps) (auto simp add: Let_def)
        also have "\<dots> = first_balanced bs cls opn ?l (cp_positions_back bs ?p)"
          using 1(2) [OF refl notclose notdone False] 1(3) by simp
        also have "\<dots> = first_balanced bs cls opn level (cp_positions_back bs it)"
          using notclose notdone 1(3) by (auto simp add: pos first_balanced_Cons nesting_def)
        finally show ?thesis .
      qed
    qed
  qed
qed

lemma find_index_of_bracket:
  "find_index_of c xs \<noteq> length xs \<longleftrightarrow> c \<in> set xs"
  by (induction xs) auto

lemma matching_scan_find:
  "matching_scan bs it =
     (case find (\<lambda>p. is_eol_cp (utf8_codepoint bs p) \<or> is_bracket (utf8_codepoint bs p))
             (cp_positions bs it) of
        None \<Rightarrow> None
      | Some p \<Rightarrow> if is_eol_cp (utf8_codepoint bs p) then Some None
                  else Some (Some (p, find_index_of (utf8_codepoint bs p) matching_pairs)))"
proof (induction bs it rule: matching_scan.induct)
  case (1 bs it)
  show ?case
  proof (cases "length bs \<le> it")
    case True
    then show ?thesis
      by (simp add: matching_scan.simps [of bs it] cp_positions.simps [of bs it])
  next
    case False
    let ?c = "utf8_codepoint bs it"
    let ?n = "utf8_next bs it (length bs)"
    from False have pos: "cp_positions bs it = it # cp_positions bs ?n"
      by (simp add: cp_positions.simps [of bs it])
    show ?thesis
    proof (cases "is_eol_cp ?c")
      case True
      with False show ?thesis
        by (subst matching_scan.simps) (simp add: pos)
    next
      case noeol: False
      show ?thesis
      proof (cases "is_bracket ?c")
        case True
        then have "find_index_of ?c matching_pairs \<noteq> length matching_pairs"
          by (simp add: find_index_of_bracket is_bracket_def)
        with False noeol True show ?thesis
          by (subst matching_scan.simps) (simp add: pos Let_def)
      next
        case nobracket: False
        then have eq: "find_index_of ?c matching_pairs = length matching_pairs"
          using find_index_of_bracket [of ?c matching_pairs] by (simp add: is_bracket_def)
        from False noeol eq have "matching_scan bs it = matching_scan bs ?n"
          by (subst matching_scan.simps) (simp add: Let_def)
        also note 1 [OF False refl noeol refl, simplified eq, simplified]
        finally show ?thesis using noeol nobracket by (simp add: pos)
      qed
    qed
  qed
qed

lemma bracket_table:
  assumes "is_bracket c"
  shows "matching_pairs ! find_index_of c matching_pairs = c"
    and "find_index_of c matching_pairs mod 2 = 0 \<longleftrightarrow> is_opening_bracket c"
    and "is_opening_bracket c
           \<Longrightarrow> matching_pairs ! (find_index_of c matching_pairs + 1) = partner c"
    and "\<not> is_opening_bracket c
           \<Longrightarrow> matching_pairs ! (find_index_of c matching_pairs - 1) = partner c"
    and "partner c \<noteq> c"
  using assms
  by (auto simp add: is_bracket_def matching_pairs_def is_opening_bracket_def partner_def)

lemma select_matching_refines_spec:
  "select_matching buffer selection = matching_bracket_spec buffer selection"
proof (cases "iterator_at buffer (cursor selection)")
  case None
  then show ?thesis by (simp add: select_matching_def matching_bracket_spec_def)
next
  case (Some it0)
  let ?bs = "bytes buffer"
  let ?P = "\<lambda>p. is_eol_cp (utf8_codepoint ?bs p) \<or> is_bracket (utf8_codepoint ?bs p)"
  show ?thesis
  proof (cases "find ?P (cp_positions ?bs it0)")
    case None
    with Some show ?thesis
      by (simp add: select_matching_def matching_bracket_spec_def matching_scan_find)
  next
    case found: (Some p)
    let ?c = "utf8_codepoint ?bs p"
    show ?thesis
    proof (cases "is_eol_cp ?c")
      case True
      with Some found show ?thesis
        by (simp add: select_matching_def matching_bracket_spec_def matching_scan_find)
    next
      case False
      from found have "?P p" by (auto simp add: find_Some_iff)
      with False have br: "is_bracket ?c" by simp
      note tb = bracket_table [OF br]
      show ?thesis
      proof (cases "is_opening_bracket ?c")
        case True
        with Some found False tb show ?thesis
          by (simp add: select_matching_def matching_bracket_spec_def matching_scan_find
              matching_forward_first_balanced Let_def)
      next
        case closing: False
        with Some found False tb show ?thesis
          by (simp add: select_matching_def matching_bracket_spec_def matching_scan_find
              matching_backward_first_balanced Let_def)
      qed
    qed
  qed
qed

text \<open>
  On a buffer that ends with a newline the first loop always finds its end of line: the
  codepoint positions are all the bytes that are not continuation bytes.
\<close>

lemma to_next_loop_le:
  "i \<le> j \<Longrightarrow> j < length bs \<Longrightarrow> \<not> is_continuation (bs ! j) \<Longrightarrow> to_next_loop bs i endp \<le> j"
proof (induction bs i endp rule: to_next_loop.induct)
  case (1 bs it endp)
  show ?case
  proof (cases "it \<noteq> endp \<and> it < length bs \<and> is_continuation (bs ! it)")
    case True
    with 1(4) have "it \<noteq> j" by auto
    with 1(2) have "Suc it \<le> j" by simp
    from 1(1) [OF True this 1(3) 1(4)] to_next_loop_step [OF True] show ?thesis by simp
  next
    case False
    from to_next_loop_stop [OF False] 1(2) show ?thesis by simp
  qed
qed

lemma cp_positions_visits:
  "it \<le> j \<Longrightarrow> j < length bs \<Longrightarrow> \<not> is_continuation (bs ! j) \<Longrightarrow> j \<in> set (cp_positions bs it)"
proof (induction bs it rule: cp_positions.induct)
  case (1 bs it)
  from 1(2,3) have lt: "it < length bs" by simp
  then have pos: "cp_positions bs it = it # cp_positions bs (utf8_next bs it (length bs))"
    by (subst cp_positions.simps) simp
  show ?case
  proof (cases "it = j")
    case True
    from pos have "it \<in> set (cp_positions bs it)" by simp
    with True show ?thesis by simp
  next
    case False
    with 1(2) have "Suc it \<le> j" by simp
    from to_next_loop_le [OF this 1(3) 1(4)] lt
    have "utf8_next bs it (length bs) \<le> j" by (simp add: utf8_next_def)
    from 1(1) [OF lt this 1(3) 1(4)] show ?thesis by (simp add: pos)
  qed
qed

lemma cp_positions_bound: "p \<in> set (cp_positions bs it) \<Longrightarrow> p < length bs"
proof (induction bs it rule: cp_positions.induct)
  case (1 bs it)
  show ?case
  proof (cases "it < length bs")
    case True
    then have "cp_positions bs it = it # cp_positions bs (utf8_next bs it (length bs))"
      by (subst cp_positions.simps) simp
    with 1 True show ?thesis by auto
  next
    case False
    then have "cp_positions bs it = []" by (subst cp_positions.simps) simp
    with 1(2) show ?thesis by simp
  qed
qed

lemma cp_positions_back_bound: "p \<in> set (cp_positions_back bs it) \<Longrightarrow> p \<le> it"
proof (induction bs it rule: cp_positions_back.induct)
  case (1 bs it)
  show ?case
  proof (cases "it = 0")
    case True
    have "cp_positions_back bs 0 = [0]" by (subst cp_positions_back.simps) simp
    with 1(2) True show ?thesis by simp
  next
    case False
    then have "cp_positions_back bs it = it # cp_positions_back bs (utf8_previous bs it 0)"
      by (subst cp_positions_back.simps) simp
    with 1 False utf8_previous_lt [of it bs] show ?thesis by fastforce
  qed
qed

lemma first_balanced_in_set:
  "first_balanced bs up down level ps = Some q \<Longrightarrow> q \<in> set ps"
  by (auto simp add: first_balanced_def find_Some_iff)

lemma newline_codepoint:
  "j < length bs \<Longrightarrow> bs ! j = CHR 0x0A \<Longrightarrow> is_eol_cp (utf8_codepoint bs j)"
  by (simp add: utf8_codepoint_def is_eol_cp_def)

lemma newline_not_continuation: "\<not> is_continuation (CHR 0x0A)"
  by (simp add: is_continuation_def)

lemma scan_reaches_newline:
  assumes "bs \<noteq> []" and "last bs = CHR 0x0A" and "it < length bs"
  shows "find (\<lambda>p. is_eol_cp (utf8_codepoint bs p) \<or> is_bracket (utf8_codepoint bs p))
           (cp_positions bs it) \<noteq> None"
proof -
  let ?j = "length bs - 1"
  from assms have j: "?j < length bs" "it \<le> ?j" "bs ! ?j = CHR 0x0A"
    by (simp_all add: last_conv_nth)
  from cp_positions_visits [OF j(2) j(1)] j(3) newline_not_continuation
  have "?j \<in> set (cp_positions bs it)" by simp
  moreover from newline_codepoint [OF j(1) j(3)] have "is_eol_cp (utf8_codepoint bs ?j)" .
  ultimately show ?thesis by (auto simp add: find_None_iff)
qed

lemma offset_in_bytes:
  assumes "valid_coord b c"
  shows "length (concat (take (nat (line c)) b)) + nat (column c) < length (bytes b)"
proof -
  let ?l = "nat (line c)"
  from assms have l: "?l < length b" and c: "nat (column c) < length (b ! ?l)"
    by (auto simp add: valid_coord_def)
  from l have "b = take ?l b @ b ! ?l # drop (Suc ?l) b" by (rule id_take_nth_drop)
  then have "concat b = concat (take ?l b) @ b ! ?l @ concat (drop (Suc ?l) b)"
    by (metis concat.simps(2) concat_append)
  then have "length (concat b)
      = length (concat (take ?l b)) + length (b ! ?l) + length (concat (drop (Suc ?l) b))"
    by simp
  with c show ?thesis by (simp add: bytes_def)
qed

lemma select_matching_defined:
  assumes "bytes buffer \<noteq> []" and "last (bytes buffer) = CHR 0x0A"
    and "valid_coord buffer (cursor selection)"
  shows "\<exists>r. select_matching buffer selection = Some r"
proof -
  let ?bs = "bytes buffer"
  let ?P = "\<lambda>p. is_eol_cp (utf8_codepoint ?bs p) \<or> is_bracket (utf8_codepoint ?bs p)"
  from assms(3) obtain it0 where it0: "iterator_at buffer (cursor selection) = Some it0"
    and lt: "it0 < length ?bs"
    using offset_in_bytes [OF assms(3)] by (simp add: iterator_at_def)
  from scan_reaches_newline [OF assms(1,2) lt]
  obtain p where p: "find ?P (cp_positions ?bs it0) = Some p" by auto
  then have "p \<in> set (cp_positions ?bs it0)" by (auto simp add: find_Some_iff)
  then have pb: "p < length ?bs" by (rule cp_positions_bound)
  let ?c = "utf8_codepoint ?bs p"
  let ?ps = "if is_opening_bracket ?c then cp_positions ?bs p else cp_positions_back ?bs p"
  show ?thesis
  proof (cases "is_eol_cp ?c")
    case True
    with it0 p show ?thesis
      by (simp add: select_matching_refines_spec matching_bracket_spec_def)
  next
    case False
    show ?thesis
    proof (cases "first_balanced ?bs ?c (partner ?c) 0 ?ps")
      case None
      with it0 p False show ?thesis
        by (simp add: select_matching_refines_spec matching_bracket_spec_def Let_def)
    next
      case (Some q)
      from first_balanced_in_set [OF Some] have "q \<in> set ?ps" .
      with pb have "q < length ?bs"
        using cp_positions_bound [of q ?bs p] cp_positions_back_bound [of q ?bs p]
        by (auto split: if_splits)
      with pb have "utf8_range buffer (int p, int q) \<noteq> None"
        by (simp add: utf8_range_def coord_def)
      with it0 p False Some show ?thesis
        by (auto simp add: select_matching_refines_spec matching_bracket_spec_def Let_def)
    qed
  qed
qed

text \<open>
  Claim C6.  \<open>select_matching\<close> scans the codepoints from the cursor up to the first end
  of line for one of the brackets \<open>( ) { } [ ] < >\<close> and returns nothing when the end of
  line comes first; from an opening bracket it returns the span to the first closing
  bracket of the pair at which the nesting counter is back to zero going forward, from
  a closing bracket the span to the first opening bracket of the pair at which it is
  zero going backward, and nothing when the end or the beginning of the buffer is
  reached first.  On a buffer that ends with a newline and a valid cursor it always
  returns.
\<close>

theorem select_matching_scans_line_then_nests:
  "select_matching buffer selection = matching_bracket_spec buffer selection
   \<and> (bytes buffer \<noteq> [] \<and> last (bytes buffer) = CHR 0x0A
        \<and> valid_coord buffer (cursor selection)
      \<longrightarrow> (\<exists>r. select_matching buffer selection = Some r))"
  using select_matching_refines_spec [of buffer selection]
    select_matching_defined [of buffer selection]
  by blast

text \<open>
  On the lines \<open>f(a, (b)) x\<close> and \<open>y)\<close>: from the \<open>a\<close> the first bracket is the inner
  opening one and the span is \<open>(b)\<close>; from the blank before the \<open>x\<close> there is no bracket
  left on the line.
\<close>

theorem select_matching_scans_line_then_nests_witness:
  "matching_bracket_spec [''f(a, (b)) x\<newline>'', ''y)\<newline>'']
     (make_selection \<lparr>line = 0, column = 2\<rparr> \<lparr>line = 0, column = 2\<rparr>)
   = Some (Some (make_selection \<lparr>line = 0, column = 5\<rparr> \<lparr>line = 0, column = 7\<rparr>))
   \<and> matching_bracket_spec [''f(a, (b)) x\<newline>'', ''y)\<newline>'']
     (make_selection \<lparr>line = 0, column = 9\<rparr> \<lparr>line = 0, column = 9\<rparr>)
   = Some None
   \<and> (\<exists>r. select_matching [''f(a, (b)) x\<newline>'', ''y)\<newline>'']
     (make_selection \<lparr>line = 0, column = 2\<rparr> \<lparr>line = 0, column = 2\<rparr>) = Some r)"
proof -
  let ?b = "[''f(a, (b)) x\<newline>'', ''y)\<newline>'']"
  let ?s = "make_selection \<lparr>line = 0, column = 2\<rparr> \<lparr>line = 0, column = 2\<rparr>"
  let ?t = "make_selection \<lparr>line = 0, column = 9\<rparr> \<lparr>line = 0, column = 9\<rparr>"
  have e1: "select_matching ?b ?s
      = Some (Some (make_selection \<lparr>line = 0, column = 5\<rparr> \<lparr>line = 0, column = 7\<rparr>))"
    by code_simp
  have e2: "select_matching ?b ?t = Some None"
    by code_simp
  have h: "bytes ?b \<noteq> [] \<and> last (bytes ?b) = CHR 0x0A \<and> valid_coord ?b (cursor ?s)"
    by code_simp
  note c = select_matching_scans_line_then_nests [of ?b ?s]
  from c [THEN conjunct1] e1
  have 1: "matching_bracket_spec ?b ?s
      = Some (Some (make_selection \<lparr>line = 0, column = 5\<rparr> \<lparr>line = 0, column = 7\<rparr>))"
    by simp
  from c [THEN conjunct2] h
  have 3: "\<exists>r. select_matching ?b ?s = Some r"
    by (rule mp)
  from select_matching_scans_line_then_nests [of ?b ?t, THEN conjunct1] e2
  have 2: "matching_bracket_spec ?b ?t = Some None"
    by simp
  from 1 2 3 show ?thesis by blast
qed

section \<open>Searching the next match\<close>

text \<open>
  What \<^verbatim>\<open>find_next_match\<close> decides by itself, whatever the regex engine: \<^verbatim>\<open>wrapped\<close> is
  set exactly when the first search is not made (its window is empty) or finds
  nothing; the match returned is then the one a search of the whole buffer finds, from
  the beginning for the forward direction and from the end for the backward one; and
  when that finds nothing either, the error \<open>'pattern': no matches found\<close> is thrown.
  Where the match found after wrapping lies, relative to the place the first search
  started from, is decided by the engine.
\<close>

lemma find_next_wrapped:
  "snd (find_next eng buffer pos ex)
     \<longleftrightarrow> (pos = length (bytes buffer) \<or>
          regex_search eng ex buffer pos (length (bytes buffer))
            (match_flags eng buffer pos (length (bytes buffer))) = None)"
  by (simp add: find_next_def Let_def split: option.splits)

lemma find_prev_wrapped:
  "snd (find_prev eng buffer pos ex)
     \<longleftrightarrow> (pos = 0 \<or>
          regex_search_backward eng ex buffer 0 pos
            (insert NotInitialNull (match_flags eng buffer 0 pos)) = None)"
  by (simp add: find_prev_def Let_def split: option.splits)

lemma find_next_after_wrap:
  "snd (find_next eng buffer pos ex) \<Longrightarrow>
   fst (find_next eng buffer pos ex)
     = regex_search eng ex buffer 0 (length (bytes buffer))
         (match_flags eng buffer 0 (length (bytes buffer)))"
  by (simp add: find_next_def Let_def split: option.splits if_splits)

lemma find_prev_after_wrap:
  "snd (find_prev eng buffer pos ex) \<Longrightarrow>
   fst (find_prev eng buffer pos ex)
     = regex_search_backward eng ex buffer 0 (length (bytes buffer))
         (insert NotInitialNull (match_flags eng buffer 0 (length (bytes buffer))))"
  by (simp add: find_prev_def Let_def split: option.splits if_splits)

lemma find_next_match_throws:
  "fst (if direction = Forward
        then find_next eng buffer
               (utf8_next (bytes buffer) (offset_of buffer (sel_max sel)) (length (bytes buffer)))
               regex
        else find_prev eng buffer (offset_of buffer (sel_min sel)) regex) = None
   \<Longrightarrow> fst (find_next_match eng direction buffer sel regex) = Inl (no_matches_found regex)"
  by (cases direction) (auto simp add: find_next_match_def Let_def split: prod.splits)

end
